theory Spec2Isabelle
  imports Main
begin

unbundle bit_operations_syntax

section \<open>Exceptions\<close>

text \<open>
  Every exception the modelled code can raise is a value. \<open>ValueError\<close> carries the
  literal that \<open>int(s, 16)\<close> rejected, \<open>ValidationError\<close> the names of the fields that
  the data model rejected, \<open>HTTPException\<close> its status code and detail.
\<close>

datatype exn =
    ValueError string
  | ValidationError "string list"
  | KeyError string
  | IndexError
  | TypeError
  | AttributeError
  | JSONDecodeError
  | HTTPException int string
  | WebSocketDisconnect

text \<open>
  \<open>except ValueError\<close> catches \<open>ValueError\<close> and its subclasses: the data model's
  \<open>ValidationError\<close> and \<open>json.JSONDecodeError\<close> are subclasses, \<open>KeyError\<close>,
  \<open>TypeError\<close>, \<open>AttributeError\<close> and \<open>IndexError\<close> are not.
\<close>

fun is_ValueError :: "exn \<Rightarrow> bool" where
  "is_ValueError (ValueError _) = True"
| "is_ValueError (ValidationError _) = True"
| "is_ValueError JSONDecodeError = True"
| "is_ValueError _ = False"

section \<open>Data model (app/models/face.py)\<close>

text \<open>
  The field set of \<open>FaceParameters\<close>. The dictionary returned by \<open>decode_face_code\<close>
  has the same five keys, so it is a value of the same record; it becomes a
  \<open>FaceParameters\<close> object only through \<open>FaceParameters_init\<close>, which validates it.
\<close>

record FaceParameters =
  morphs :: "int list"
  hair_index :: int
  beard_index :: int
  age :: int
  skin_tone :: int

definition validate_morph_values :: "int list \<Rightarrow> bool" where
  "validate_morph_values v = list_all (\<lambda>morph. 0 \<le> morph \<and> morph \<le> 7) v"

definition validate_skin_tone :: "int \<Rightarrow> bool" where
  "validate_skin_tone v = (v \<in> set [0, 1, 2, 3, 4])"

text \<open>
  The fields that fail validation, in declaration order. A field is \<open>None\<close> when the
  keyword argument is missing or has no integer (list of integers) reading.
\<close>

definition field_errors ::
  "int list option \<Rightarrow> int option \<Rightarrow> int option \<Rightarrow> int option \<Rightarrow> int option \<Rightarrow> string list" where
  "field_errors ms h b a s =
     (if (case ms of Some v \<Rightarrow> length v = 8 \<and> validate_morph_values v | None \<Rightarrow> False)
      then [] else [''morphs'']) @
     (if (case h of Some v \<Rightarrow> 0 \<le> v \<and> v \<le> 63 | None \<Rightarrow> False) then [] else [''hair_index'']) @
     (if (case b of Some v \<Rightarrow> 0 \<le> v \<and> v \<le> 63 | None \<Rightarrow> False) then [] else [''beard_index'']) @
     (if (case a of Some v \<Rightarrow> 0 \<le> v \<and> v \<le> 63 | None \<Rightarrow> False) then [] else [''age'']) @
     (if (case s of Some v \<Rightarrow> 0 \<le> v \<and> v \<le> 4 \<and> validate_skin_tone v | None \<Rightarrow> False)
      then [] else [''skin_tone''])"

definition invalid_fields :: "FaceParameters \<Rightarrow> string list" where
  "invalid_fields p =
     field_errors (Some (morphs p)) (Some (hair_index p)) (Some (beard_index p)) (Some (age p))
       (Some (skin_tone p))"

text \<open>\<open>FaceParameters(**d)\<close> for a dictionary \<open>d\<close> that holds the five fields, as integers.\<close>

definition FaceParameters_init :: "FaceParameters \<Rightarrow> exn + FaceParameters" where
  "FaceParameters_init p =
     (if invalid_fields p = [] then Inr p else Inl (ValidationError (invalid_fields p)))"

text \<open>A valid \<open>FaceParameters\<close> object is one that construction accepts.\<close>

definition valid_params :: "FaceParameters \<Rightarrow> bool" where
  "valid_params p \<longleftrightarrow> FaceParameters_init p = Inr p"

section \<open>Face code service (app/services/face_code_service.py)\<close>

definition MORPH_BITS :: nat where
  "MORPH_BITS = 3"

subsection \<open>Python built-ins used by the service\<close>

text \<open>List indexing \<open>xs[i]\<close>: a negative index counts from the end, out of range raises.\<close>

definition py_index :: "'a list \<Rightarrow> int \<Rightarrow> exn + 'a" where
  "py_index xs i =
     (if 0 \<le> i \<and> i < int (length xs) then Inr (xs ! nat i)
      else if i < 0 \<and> - int (length xs) \<le> i then Inr (xs ! nat (int (length xs) + i))
      else Inl IndexError)"

text \<open>\<open>d.get(k, default)\<close> on a dictionary written as a literal.\<close>

definition dict_get :: "('k \<times> 'v) list \<Rightarrow> 'k \<Rightarrow> 'v \<Rightarrow> 'v" where
  "dict_get d k dflt = (case map_of d k of Some v \<Rightarrow> v | None \<Rightarrow> dflt)"

subsection \<open>The packed integer\<close>

text \<open>
  The loop \<open>for i, morph in enumerate(params.morphs)\<close> of \<open>encode_face_code\<close>, with
  the loop counter and the accumulator as arguments.
\<close>

fun encode_morphs :: "nat \<Rightarrow> int list \<Rightarrow> int \<Rightarrow> int" where
  "encode_morphs i [] face_int = face_int"
| "encode_morphs i (morph # rest) face_int =
     encode_morphs (Suc i) rest (face_int OR push_bit (i * MORPH_BITS) (morph AND 7))"

definition skin_values :: "int list" where
  "skin_values = [0, 16, 32, 48, 64]"

text \<open>
  Lines 57 to 72 of \<open>encode_face_code\<close>: the value of \<open>face_int\<close> just before it is
  rendered. The skin lookup \<open>skin_values[params.skin_tone]\<close> can raise.
\<close>

definition encode_face_int :: "FaceParameters \<Rightarrow> exn + int" where
  "encode_face_int params =
     (let face_int = encode_morphs 0 (morphs params) 0;
          face_int = face_int OR push_bit 24 (hair_index params AND 63);
          face_int = face_int OR push_bit 30 (beard_index params AND 63);
          face_int = face_int OR push_bit 36 (age params AND 63)
      in case py_index skin_values (skin_tone params) of
           Inl e \<Rightarrow> Inl e
         | Inr skin_value \<Rightarrow> Inr (face_int OR push_bit 42 (skin_value AND 63)))"

definition skin_map :: "(int \<times> int) list" where
  "skin_map = [(0, 0), (16, 1), (32, 2), (48, 3), (64, 4)]"

text \<open>
  Lines 28 to 51 of \<open>decode_face_code\<close>: the fields extracted from the parsed integer.
  Python's \<open>>>\<close> on a negative integer is the arithmetic shift, as \<open>drop_bit\<close> on
  \<open>int\<close> is, and \<open>&\<close> works on the two's complement, as \<open>AND\<close> on \<open>int\<close> does.
\<close>

definition decode_face_int :: "int \<Rightarrow> FaceParameters" where
  "decode_face_int face_int =
     \<lparr> morphs = map (\<lambda>i. drop_bit (i * MORPH_BITS) face_int AND 7) [0..<8],
       hair_index = drop_bit 24 face_int AND 63,
       beard_index = drop_bit 30 face_int AND 63,
       age = drop_bit 36 face_int AND 63,
       skin_tone = dict_get skin_map (drop_bit 42 face_int AND 63) 0 \<rparr>"

subsection \<open>Parsing and rendering hexadecimal text\<close>

text \<open>
  \<open>int(s, 16)\<close> on a string of ASCII characters, following the steps of the
  interpreter's parser: skip leading white space, take one optional sign, skip one
  optional \<open>0x\<close> or \<open>0X\<close> and one underscore after it, scan digits and single
  underscores, skip trailing white space, and require the end of the string.
\<close>

definition is_space :: "char \<Rightarrow> bool" where
  "is_space c \<longleftrightarrow> c \<in> set [CHR 0x09, CHR 0x0A, CHR 0x0B, CHR 0x0C, CHR 0x0D, CHR '' '']"

definition digit_value :: "char \<Rightarrow> nat option" where
  "digit_value c =
     (let n = (of_char c :: nat)
      in if 48 \<le> n \<and> n \<le> 57 then Some (n - 48)
         else if 97 \<le> n \<and> n \<le> 102 then Some (n - 87)
         else if 65 \<le> n \<and> n \<le> 70 then Some (n - 55)
         else None)"

definition is_hex_digit :: "char \<Rightarrow> bool" where
  "is_hex_digit c \<longleftrightarrow> digit_value c \<noteq> None"

text \<open>
  The scanning loop: \<open>prev\<close> tells whether the previous character was an underscore,
  \<open>ds\<close> collects the digits read so far. It stops at the first character that is
  neither a digit nor an underscore and returns the digits and the rest; a double or a
  trailing underscore is an error.
\<close>

fun scan_digits :: "bool \<Rightarrow> nat list \<Rightarrow> string \<Rightarrow> (nat list \<times> string) option" where
  "scan_digits prev ds [] = (if prev then None else Some (ds, []))"
| "scan_digits prev ds (c # cs) =
     (if c = CHR ''_'' then (if prev then None else scan_digits True ds cs)
      else case digit_value c of
             Some d \<Rightarrow> scan_digits False (ds @ [d]) cs
           | None \<Rightarrow> (if prev then None else Some (ds, c # cs)))"

definition digits_value :: "nat list \<Rightarrow> int" where
  "digits_value ds = foldl (\<lambda>a d. 16 * a + int d) 0 ds"

definition skip_sign :: "string \<Rightarrow> int \<times> string" where
  "skip_sign s =
     (case s of
        c # cs \<Rightarrow> if c = CHR ''+'' then (1, cs) else if c = CHR ''-'' then (- 1, cs) else (1, s)
      | [] \<Rightarrow> (1, s))"

definition skip_prefix :: "string \<Rightarrow> string" where
  "skip_prefix s =
     (case s of
        c # x # cs \<Rightarrow>
          if c = CHR ''0'' \<and> (x = CHR ''x'' \<or> x = CHR ''X'')
          then (case cs of u # cs' \<Rightarrow> if u = CHR ''_'' then cs' else cs | [] \<Rightarrow> cs)
          else s
      | _ \<Rightarrow> s)"

definition py_int16 :: "string \<Rightarrow> int option" where
  "py_int16 s =
     (let (sign, s2) = skip_sign (dropWhile is_space s);
          s3 = skip_prefix s2
      in if s3 \<noteq> [] \<and> hd s3 = CHR ''_'' then None
         else (case scan_digits False [] s3 of
                 None \<Rightarrow> None
               | Some (ds, rest) \<Rightarrow>
                   (if ds = [] then None
                    else if dropWhile is_space rest \<noteq> [] then None
                    else Some (sign * digits_value ds))))"

text \<open>
  The format specification \<open>016x\<close>: lowercase hexadecimal, padded with zeros to 16
  characters, the sign (of a negative number) first and counted in the width.
\<close>

definition hex_char :: "nat \<Rightarrow> char" where
  "hex_char d = ''0123456789abcdef'' ! d"

fun hex_of_nat :: "nat \<Rightarrow> string" where
  "hex_of_nat n = (if n < 16 then [hex_char n] else hex_of_nat (n div 16) @ [hex_char (n mod 16)])"

definition format_016x :: "int \<Rightarrow> string" where
  "format_016x n =
     (let sgn = (if n < 0 then ''-'' else []);
          ds = hex_of_nat (nat \<bar>n\<bar>)
      in sgn @ replicate (16 - length sgn - length ds) CHR ''0'' @ ds)"

subsection \<open>The two operations\<close>

definition startswith :: "string \<Rightarrow> string \<Rightarrow> bool" where
  "startswith s pre \<longleftrightarrow> take (length pre) s = pre"

text \<open>Lines 23 and 24 of \<open>decode_face_code\<close>.\<close>

definition strip_0x :: "string \<Rightarrow> string" where
  "strip_0x hex_code = (if startswith hex_code ''0x'' then drop 2 hex_code else hex_code)"

definition decode_face_code :: "string \<Rightarrow> exn + FaceParameters" where
  "decode_face_code hex_code =
     (let hex_code = strip_0x hex_code
      in case py_int16 hex_code of
           None \<Rightarrow> Inl (ValueError hex_code)
         | Some face_int \<Rightarrow> Inr (decode_face_int face_int))"

definition encode_face_code :: "FaceParameters \<Rightarrow> exn + string" where
  "encode_face_code params =
     (case encode_face_int params of
        Inl e \<Rightarrow> Inl e
      | Inr face_int \<Rightarrow> Inr (''0x'' @ format_016x face_int))"

subsection \<open>Reading the text as a number\<close>

text \<open>The unsigned base-16 value of a string of hexadecimal digits, most significant first.\<close>

definition unsigned_hex :: "string \<Rightarrow> int" where
  "unsigned_hex s = foldl (\<lambda>a c. 16 * a + int (the (digit_value c))) 0 s"

text \<open>The digits that the format specification \<open>x\<close> produces.\<close>

definition is_lower_hex :: "char \<Rightarrow> bool" where
  "is_lower_hex c \<longleftrightarrow> c \<in> set ''0123456789abcdef''"

text \<open>
  The pattern of \<open>FaceCode.hex_code\<close>, \<open>^0x[0-9a-fA-F]+$\<close>, as \<open>re.match\<close> decides it:
  \<open>$\<close> also matches just before one final newline.
\<close>

definition hex_code_pattern :: "string \<Rightarrow> bool" where
  "hex_code_pattern s \<longleftrightarrow>
     startswith s ''0x'' \<and>
     (let t = drop 2 s;
          t = (if t \<noteq> [] \<and> last t = CHR 0x0A then butlast t else t)
      in t \<noteq> [] \<and> list_all is_hex_digit t)"

text \<open>
  The example record of the round-trip property, with its skin tone left open:
  morphs 0 to 7, hair 10, beard 20, age 30.
\<close>

definition example_params :: "int \<Rightarrow> FaceParameters" where
  "example_params tone =
     \<lparr> morphs = [0, 1, 2, 3, 4, 5, 6, 7], hair_index = 10, beard_index = 20, age = 30,
       skin_tone = tone \<rparr>"

text \<open>
  Bit \<open>n\<close> of the packed integer, read off the layout: morph \<open>j\<close> at bits \<open>3j\<close> to
  \<open>3j + 2\<close>, hair at 24, beard at 30, age at 36 and the skin value \<open>sv\<close> at 42, six
  bits each.
\<close>

definition packed_bit :: "FaceParameters \<Rightarrow> int \<Rightarrow> nat \<Rightarrow> bool" where
  "packed_bit p sv n \<longleftrightarrow>
     (\<exists>j < length (morphs p). 3 * j \<le> n \<and> n < 3 * j + 3 \<and> bit (morphs p ! j) (n - 3 * j)) \<or>
     (24 \<le> n \<and> n < 30 \<and> bit (hair_index p) (n - 24)) \<or>
     (30 \<le> n \<and> n < 36 \<and> bit (beard_index p) (n - 30)) \<or>
     (36 \<le> n \<and> n < 42 \<and> bit (age p) (n - 36)) \<or>
     (42 \<le> n \<and> n < 48 \<and> bit sv (n - 42))"


subsection \<open>The text that \<open>int(s, 16)\<close> accepts\<close>

text \<open>A non-empty sequence of hexadecimal digits.\<close>

definition hex_digits :: "string \<Rightarrow> bool" where
  "hex_digits s \<longleftrightarrow> s \<noteq> [] \<and> list_all is_hex_digit s"

text \<open>Digits with single underscores between them: \<open>digit (_? digit)*\<close>.\<close>

fun hex_body :: "string \<Rightarrow> bool" where
  "hex_body [] = False"
| "hex_body [c] = is_hex_digit c"
| "hex_body (c # u # cs) =
     (is_hex_digit c \<and> (if u = CHR ''_'' then hex_body cs else hex_body (u # cs)))"

text \<open>
  The base-16 integer literals: white space, an optional sign, an optional \<open>0x\<close> or
  \<open>0X\<close> with an optional underscore after it, a body of digits, white space. The
  literal denotes the signed value of its digits.
\<close>

definition int_literal16 :: "string \<Rightarrow> int \<Rightarrow> bool" where
  "int_literal16 s n \<longleftrightarrow>
     (\<exists>ws1 sg pre body ws2.
        s = ws1 @ sg @ pre @ body @ ws2 \<and>
        list_all is_space ws1 \<and> list_all is_space ws2 \<and>
        sg \<in> {[], ''+'', ''-''} \<and>
        pre \<in> {[], ''0x'', ''0X'', ''0x_'', ''0X_''} \<and>
        hex_body body \<and>
        n = (if sg = ''-'' then - 1 else 1) * unsigned_hex (filter (\<lambda>c. c \<noteq> CHR ''_'') body))"

definition body_digits :: "string \<Rightarrow> nat list" where
  "body_digits body = map (the \<circ> digit_value) (filter (\<lambda>c. c \<noteq> CHR ''_'') body)"

text \<open>What ends the scan: the end of the text, or a character that is no digit and no underscore.\<close>

definition stops :: "string \<Rightarrow> bool" where
  "stops rest \<longleftrightarrow> (case rest of [] \<Rightarrow> True | c # _ \<Rightarrow> c \<noteq> CHR ''_'' \<and> \<not> is_hex_digit c)"

text \<open>
  The model of \<open>int(s, 16)\<close> is that of the interpreter on ASCII text; beyond ASCII the
  interpreter also reads Unicode digits and white space, which are outside the model.
\<close>

definition is_ascii :: "char \<Rightarrow> bool" where
  "is_ascii c \<longleftrightarrow> (of_char c :: nat) < 128"

section \<open>JSON values\<close>

text \<open>
  The values \<open>json.loads\<close> returns and \<open>json.dumps\<close> takes. An object is the list of
  its items, looked up with \<open>map_of\<close>; a float is kept as its literal.
\<close>

datatype json =
    JNull
  | JBool bool
  | JInt int
  | JFloat string
  | JString string
  | JArray "json list"
  | JObject "(string \<times> json) list"

section \<open>Face code endpoints (app/api/api_v1/endpoints/face.py)\<close>

text \<open>
  An endpoint returns its response body, or raises: \<open>Inl (HTTPException status detail)\<close>
  is the error response with that status. The text \<open>str(e)\<close> of an exception is
  produced by the interpreter and the libraries, so it is a parameter, \<open>str_exc\<close>.
  Every constructor of \<open>exn\<close> is a subclass of \<open>Exception\<close>: \<open>except Exception\<close>
  catches them all.
\<close>

definition validate_face_code :: "(exn \<Rightarrow> string) \<Rightarrow> string \<Rightarrow> exn + json" where
  "validate_face_code str_exc face_code =
     (case (case decode_face_code face_code of
              Inl e \<Rightarrow> Inl e
            | Inr params_dict \<Rightarrow> FaceParameters_init params_dict) of
        Inr _ \<Rightarrow>
          Inr (JObject [(''valid'', JBool True), (''face_code'', JString face_code),
                        (''message'', JString ''Face code is valid'')])
      | Inl e \<Rightarrow>
          Inr (JObject [(''valid'', JBool False), (''face_code'', JString face_code),
                        (''message'', JString (str_exc e))]))"

section \<open>Real-time channel (app/api/api_v1/endpoints/websocket.py)\<close>

text \<open>
  \<open>FaceParameters(**kw)\<close> for the items \<open>kw\<close> of a JSON object. How the data model
  reads a JSON value as an integer is its own affair: \<open>coerce_int\<close> is a parameter.
  Items with other keys are ignored.
\<close>

definition coerce_int_list :: "(json \<Rightarrow> int option) \<Rightarrow> json \<Rightarrow> int list option" where
  "coerce_int_list coerce_int v =
     (case v of
        JArray xs \<Rightarrow>
          if list_all (\<lambda>x. coerce_int x \<noteq> None) xs then Some (map (the \<circ> coerce_int) xs) else None
      | _ \<Rightarrow> None)"

definition kwarg :: "(string \<times> json) list \<Rightarrow> string \<Rightarrow> (json \<Rightarrow> 'a option) \<Rightarrow> 'a option" where
  "kwarg kw k conv = (case map_of kw k of None \<Rightarrow> None | Some v \<Rightarrow> conv v)"

definition FaceParameters_kwargs ::
  "(json \<Rightarrow> int option) \<Rightarrow> (string \<times> json) list \<Rightarrow> exn + FaceParameters" where
  "FaceParameters_kwargs coerce_int kw =
     (let ms = kwarg kw ''morphs'' (coerce_int_list coerce_int);
          h = kwarg kw ''hair_index'' coerce_int;
          b = kwarg kw ''beard_index'' coerce_int;
          a = kwarg kw ''age'' coerce_int;
          s = kwarg kw ''skin_tone'' coerce_int;
          errors = field_errors ms h b a s
      in if errors = []
         then Inr \<lparr> morphs = the ms, hair_index = the h, beard_index = the b, age = the a,
                    skin_tone = the s \<rparr>
         else Inl (ValidationError errors))"

text \<open>\<open>params.dict()\<close>.\<close>

definition params_dict :: "FaceParameters \<Rightarrow> json" where
  "params_dict params =
     JObject [(''morphs'', JArray (map JInt (morphs params))),
              (''hair_index'', JInt (hair_index params)),
              (''beard_index'', JInt (beard_index params)),
              (''age'', JInt (age params)),
              (''skin_tone'', JInt (skin_tone params))]"

text \<open>\<open>update.get(key)\<close> and \<open>update[key]\<close>: only a dictionary has them.\<close>

definition get_method :: "json \<Rightarrow> string \<Rightarrow> exn + json option" where
  "get_method update k = (case update of JObject items \<Rightarrow> Inr (map_of items k) | _ \<Rightarrow> Inl AttributeError)"

definition subscript :: "json \<Rightarrow> string \<Rightarrow> exn + json" where
  "subscript update k =
     (case update of
        JObject items \<Rightarrow> (case map_of items k of Some v \<Rightarrow> Inr v | None \<Rightarrow> Inl (KeyError k))
      | _ \<Rightarrow> Inl TypeError)"

text \<open>
  The body of the inner \<open>try\<close>: the frame it sends, or the exception it raises. The
  operator \<open>**\<close> needs a mapping.
\<close>

definition face_update :: "(json \<Rightarrow> int option) \<Rightarrow> json \<Rightarrow> exn + json" where
  "face_update coerce_int update =
     (case subscript update ''parameters'' of
        Inl e \<Rightarrow> Inl e
      | Inr v \<Rightarrow>
          (case v of
             JObject kw \<Rightarrow>
               (case FaceParameters_kwargs coerce_int kw of
                  Inl e \<Rightarrow> Inl e
                | Inr params \<Rightarrow>
                    (case encode_face_code params of
                       Inl e \<Rightarrow> Inl e
                     | Inr face_code \<Rightarrow>
                         Inr (JObject [(''type'', JString ''face_update_response''),
                                       (''parameters'', params_dict params),
                                       (''face_code'', JString face_code)])))
           | _ \<Rightarrow> Inl TypeError))"

text \<open>
  One turn of the \<open>while True\<close> loop on the received text \<open>data\<close>: the frames it sends,
  as the values given to \<open>json.dumps\<close>, or the exception that leaves the loop body.
  \<open>json_loads\<close> is the library's parser, a parameter.
\<close>

definition handle_message ::
  "(exn \<Rightarrow> string) \<Rightarrow> (json \<Rightarrow> int option) \<Rightarrow> (string \<Rightarrow> exn + json) \<Rightarrow> string \<Rightarrow> exn + json list" where
  "handle_message str_exc coerce_int json_loads data =
     (case json_loads data of
        Inl e \<Rightarrow> Inl e
      | Inr update \<Rightarrow>
          (case get_method update ''type'' of
             Inl e \<Rightarrow> Inl e
           | Inr t \<Rightarrow>
               if t = Some (JString ''face_update'') then
                 (case face_update coerce_int update of
                    Inr frame \<Rightarrow> Inr [frame]
                  | Inl e \<Rightarrow>
                      if is_ValueError e
                      then Inr [JObject [(''type'', JString ''error''), (''message'', JString (str_exc e))]]
                      else Inl e)
               else if t = Some (JString ''ping'') then Inr [JObject [(''type'', JString ''pong'')]]
               else Inr []))"

text \<open>
  The handler after \<open>accept\<close>, on the texts the client sends before it disconnects.
  \<open>receive_text\<close> raises \<open>WebSocketDisconnect\<close> when they are used up, which the
  outer \<open>except\<close> catches. The result is the frames sent, in order, and the exception
  that the handler lets through, if any.
\<close>

fun websocket_face_updates ::
  "(exn \<Rightarrow> string) \<Rightarrow> (json \<Rightarrow> int option) \<Rightarrow> (string \<Rightarrow> exn + json) \<Rightarrow>
     string list \<Rightarrow> json list \<Rightarrow> json list \<times> exn option" where
  "websocket_face_updates str_exc coerce_int json_loads [] sent = (sent, None)"
| "websocket_face_updates str_exc coerce_int json_loads (data # incoming) sent =
     (case handle_message str_exc coerce_int json_loads data of
        Inl e \<Rightarrow> (sent, if e = WebSocketDisconnect then None else Some e)
      | Inr frames \<Rightarrow> websocket_face_updates str_exc coerce_int json_loads incoming (sent @ frames))"

text \<open>
  A reading of JSON integers that takes integers only, and a parser that knows two
  texts: \<open>A\<close>, a face update without parameters, and \<open>B\<close>, a face update whose skin
  tone is out of range. They instantiate the parameters of the channel in an example.
\<close>

definition strict_int :: "json \<Rightarrow> int option" where
  "strict_int v = (case v of JInt n \<Rightarrow> Some n | _ \<Rightarrow> None)"

definition sample_loads :: "string \<Rightarrow> exn + json" where
  "sample_loads data =
     (if data = ''A'' then Inr (JObject [(''type'', JString ''face_update'')])
      else if data = ''B'' then
        Inr (JObject [(''type'', JString ''face_update''),
                      (''parameters'',
                       JObject [(''morphs'', JArray (map JInt [0, 1, 2, 3, 4, 5, 6, 7])),
                                (''hair_index'', JInt 10), (''beard_index'', JInt 20),
                                (''age'', JInt 30), (''skin_tone'', JInt 9)])])
      else Inl JSONDecodeError)"

section \<open>Profile parser (app/services/profile_parser.py)\<close>

subsection \<open>Updating a face\<close>

text \<open>
  The file system is a map from paths to file contents. \<open>update_character_face\<close>
  takes it and returns it with its result.
\<close>

type_synonym files = "string \<rightharpoonup> nat list"

definition update_character_face :: "files \<Rightarrow> string \<Rightarrow> int \<Rightarrow> string \<Rightarrow> files \<times> bool" where
  "update_character_face fs profile_path character_index face_code = (fs, False)"

subsection \<open>The endpoint that updates a face (app/api/api_v1/endpoints/profiles.py)\<close>

text \<open>
  The text \<open>str(e)\<close> of the framework's \<open>HTTPException\<close> is its status code, a
  colon and its detail; the text of the other exceptions stays a parameter.
  \<open>str_int\<close> is \<open>str\<close> on an integer.
\<close>

definition dec_char :: "nat \<Rightarrow> char" where
  "dec_char d = ''0123456789'' ! d"

fun dec_of_nat :: "nat \<Rightarrow> string" where
  "dec_of_nat n = (if n < 10 then [dec_char n] else dec_of_nat (n div 10) @ [dec_char (n mod 10)])"

definition str_int :: "int \<Rightarrow> string" where
  "str_int k = (if k < 0 then ''-'' @ dec_of_nat (nat (- k)) else dec_of_nat (nat k))"

definition str_exception :: "(exn \<Rightarrow> string) \<Rightarrow> exn \<Rightarrow> string" where
  "str_exception str_other e =
     (case e of
        HTTPException status_code detail \<Rightarrow> str_int status_code @ '': '' @ detail
      | _ \<Rightarrow> str_other e)"

text \<open>
  The endpoint \<open>update_character_face\<close>. \<open>UPLOADS_DIR\<close> is a setting and \<open>joinpath\<close> the
  path operator \<open>/\<close>; both are parameters. The \<open>HTTPException\<close> raised inside the
  \<open>try\<close> is itself caught by \<open>except Exception\<close> and raised again with \<open>str(e)\<close> as
  its detail.
\<close>

definition update_character_face_endpoint ::
  "(exn \<Rightarrow> string) \<Rightarrow> (string \<Rightarrow> string \<Rightarrow> string) \<Rightarrow> string \<Rightarrow> files \<Rightarrow>
     string \<Rightarrow> int \<Rightarrow> string \<Rightarrow> files \<times> (exn + json)" where
  "update_character_face_endpoint str_exc joinpath UPLOADS_DIR fs upload_id character_index face_code =
     (let upload_path = joinpath UPLOADS_DIR (upload_id @ ''.dat'')
      in if fs upload_path = None then (fs, Inl (HTTPException 404 ''Upload not found''))
         else
           (let (fs', success) = update_character_face fs upload_path character_index face_code
            in case (if success then Inr (JObject [(''message'', JString ''Face updated successfully'')])
                     else Inl (HTTPException 400 ''Failed to update face'')) of
                 Inr response \<Rightarrow> (fs', Inr response)
               | Inl e \<Rightarrow> (fs', Inl (HTTPException 400 (str_exc e)))))"

subsection \<open>Parsing a container\<close>

text \<open>
  A raw character record of the external library: the three keys the parser reads, and
  the appearance bytes.
\<close>

record char_data =
  name :: string
  sex :: int
  skin :: int
  appearance :: "nat list"

record Character =
  name :: string
  face_code :: string
  sex :: int
  skin :: int

text \<open>Construction of a \<open>Character\<close> checks \<open>sex\<close> against \<open>Field(ge=0, le=1)\<close>.\<close>

definition Character_init :: "Character \<Rightarrow> exn + Character" where
  "Character_init c =
     (if 0 \<le> Character.sex c \<and> Character.sex c \<le> 1 then Inr c
      else Inl (ValidationError [''sex'']))"

definition extract_face_code :: "char_data \<Rightarrow> string" where
  "extract_face_code cd = ''0x0000000000000000''"

text \<open>The loop of \<open>parse_profile\<close> over \<open>char_list\<close>, appending to \<open>characters\<close>.\<close>

fun parse_characters :: "char_data list \<Rightarrow> Character list \<Rightarrow> exn + Character list" where
  "parse_characters [] characters = Inr characters"
| "parse_characters (cd # char_list) characters =
     (case Character_init \<lparr> name = char_data.name cd, face_code = extract_face_code cd,
                              sex = char_data.sex cd, skin = char_data.skin cd \<rparr> of
        Inl e \<Rightarrow> Inl e
      | Inr c \<Rightarrow> parse_characters char_list (characters @ [c]))"

text \<open>
  \<open>list_characters\<close> is the external library's enumeration of a container file; it is
  a parameter.
\<close>

definition parse_profile ::
  "(string \<Rightarrow> exn + char_data list) \<Rightarrow> string \<Rightarrow> exn + Character list" where
  "parse_profile list_characters profile_path =
     (case list_characters profile_path of
        Inl e \<Rightarrow> Inl e
      | Inr char_list \<Rightarrow> parse_characters char_list [])"

text \<open>The character that \<open>parse_profile\<close> builds from a raw record.\<close>

definition to_character :: "char_data \<Rightarrow> Character" where
  "to_character cd =
     \<lparr> name = char_data.name cd, face_code = ''0x0000000000000000'',
       sex = char_data.sex cd, skin = char_data.skin cd \<rparr>"

section \<open>Properties of the packed integer\<close>

lemma and_7_take_bit: "(x::int) AND 7 = take_bit 3 x"
  by (simp add: take_bit_eq_mask mask_eq_exp_minus_1)

lemma and_63_take_bit: "(x::int) AND 63 = take_bit 6 x"
  by (simp add: take_bit_eq_mask mask_eq_exp_minus_1)

lemma bit_encode_morphs:
  "bit (encode_morphs i ms acc) n \<longleftrightarrow>
     bit acc n \<or> (\<exists>j < length ms. 3 * (i + j) \<le> n \<and> n < 3 * (i + j) + 3 \<and> bit (ms ! j) (n - 3 * (i + j)))"
proof (induction ms arbitrary: i acc)
  case Nil
  then show ?case by simp
next
  case (Cons m ms)
  have split: "(\<exists>j < length (m # ms). P j) \<longleftrightarrow> P 0 \<or> (\<exists>j < length ms. P (Suc j))" for P
    by (auto simp: less_Suc_eq_0_disj)
  show ?case
    unfolding encode_morphs.simps Cons.IH split
    by (auto simp: bit_or_iff bit_push_bit_iff and_7_take_bit bit_take_bit_iff MORPH_BITS_def mult.commute)
qed

lemma encode_face_int_bits:
  assumes "py_index skin_values (skin_tone p) = Inr sv"
  shows "\<exists>a. encode_face_int p = Inr a \<and> (\<forall>n. bit a n = packed_bit p sv n)"
  using assms
  by (auto simp: encode_face_int_def Let_def packed_bit_def bit_or_iff bit_push_bit_iff
      and_63_take_bit bit_take_bit_iff bit_encode_morphs)

lemma py_index_skin_values:
  "py_index skin_values i = Inr sv \<longleftrightarrow>
     (i = 0 \<or> i = -5) \<and> sv = 0 \<or> (i = 1 \<or> i = -4) \<and> sv = 16 \<or> (i = 2 \<or> i = -3) \<and> sv = 32 \<or>
     (i = 3 \<or> i = -2) \<and> sv = 48 \<or> (i = 4 \<or> i = -1) \<and> sv = 64"
proof -
  have "i < -5 \<or> i = -5 \<or> i = -4 \<or> i = -3 \<or> i = -2 \<or> i = -1 \<or> i = 0 \<or> i = 1 \<or> i = 2 \<or> i = 3 \<or> i = 4 \<or> 4 < i"
    by arith
  then show ?thesis
    by (elim disjE) (auto simp: py_index_def skin_values_def Let_def)
qed

lemma packed_bit_morph:
  assumes "k < length (morphs p)" "length (morphs p) \<le> 8" "n < 3"
  shows "packed_bit p sv (3 * k + n) \<longleftrightarrow> bit (morphs p ! k) n"
proof -
  have eq: "(3 * j \<le> 3 * k + n \<and> 3 * k + n < 3 * j + 3) \<longleftrightarrow> j = k" for j
    using assms(3) by arith
  have "(\<exists>j < length (morphs p). 3 * j \<le> 3 * k + n \<and> 3 * k + n < 3 * j + 3 \<and>
           bit (morphs p ! j) (3 * k + n - 3 * j)) \<longleftrightarrow> bit (morphs p ! k) n"
  proof
    assume "\<exists>j < length (morphs p). 3 * j \<le> 3 * k + n \<and> 3 * k + n < 3 * j + 3 \<and>
           bit (morphs p ! j) (3 * k + n - 3 * j)"
    then obtain j where j: "3 * j \<le> 3 * k + n \<and> 3 * k + n < 3 * j + 3"
      and b: "bit (morphs p ! j) (3 * k + n - 3 * j)"
      by blast
    from j have "j = k" by (simp only: eq)
    with b show "bit (morphs p ! k) n" by simp
  next
    assume "bit (morphs p ! k) n"
    with assms(1,3) show "\<exists>j < length (morphs p). 3 * j \<le> 3 * k + n \<and> 3 * k + n < 3 * j + 3 \<and>
           bit (morphs p ! j) (3 * k + n - 3 * j)"
      by (intro exI [of _ k]) simp
  qed
  moreover have "3 * k + n < 24"
    using assms by arith
  ultimately show ?thesis
    unfolding packed_bit_def by simp
qed

lemma packed_bit_hair:
  assumes "length (morphs p) \<le> 8" "n < 6"
  shows "packed_bit p sv (24 + n) \<longleftrightarrow> bit (hair_index p) n"
  using assms unfolding packed_bit_def by auto

lemma packed_bit_beard:
  assumes "length (morphs p) \<le> 8" "n < 6"
  shows "packed_bit p sv (30 + n) \<longleftrightarrow> bit (beard_index p) n"
  using assms unfolding packed_bit_def by auto

lemma packed_bit_age:
  assumes "length (morphs p) \<le> 8" "n < 6"
  shows "packed_bit p sv (36 + n) \<longleftrightarrow> bit (age p) n"
  using assms unfolding packed_bit_def by auto

lemma packed_bit_skin:
  assumes "length (morphs p) \<le> 8" "n < 6"
  shows "packed_bit p sv (42 + n) \<longleftrightarrow> bit sv n"
  using assms unfolding packed_bit_def by auto

lemma decode_packed:
  assumes a: "\<forall>n. bit a n = packed_bit p sv n" and len: "length (morphs p) = 8"
  shows "decode_face_int a =
     \<lparr> morphs = map (\<lambda>m. m AND 7) (morphs p),
       hair_index = hair_index p AND 63,
       beard_index = beard_index p AND 63,
       age = age p AND 63,
       skin_tone = dict_get skin_map (sv AND 63) 0 \<rparr>"
proof -
  have m: "drop_bit (k * MORPH_BITS) a AND 7 = morphs p ! k AND 7" if "k < 8" for k
    using that len
    by (intro bit_eqI)
      (auto simp: and_7_take_bit bit_take_bit_iff bit_drop_bit_eq a MORPH_BITS_def
        packed_bit_morph mult.commute [of k 3])
  have "map (\<lambda>i. drop_bit (i * MORPH_BITS) a AND 7) [0..<8] = map (\<lambda>i. morphs p ! i AND 7) [0..<8]"
    by (rule map_cong) (auto simp: m)
  also have "\<dots> = map (\<lambda>m. m AND 7) (map (\<lambda>i. morphs p ! i) [0..<length (morphs p)])"
    by (simp add: len)
  also have "\<dots> = map (\<lambda>m. m AND 7) (morphs p)"
    by (simp only: map_nth)
  finally have ms: "map (\<lambda>i. drop_bit (i * MORPH_BITS) a AND 7) [0..<8] = map (\<lambda>m. m AND 7) (morphs p)" .
  have h: "drop_bit 24 a AND 63 = hair_index p AND 63"
    using len by (intro bit_eqI) (auto simp: and_63_take_bit bit_take_bit_iff bit_drop_bit_eq a packed_bit_hair)
  have b: "drop_bit 30 a AND 63 = beard_index p AND 63"
    using len by (intro bit_eqI) (auto simp: and_63_take_bit bit_take_bit_iff bit_drop_bit_eq a packed_bit_beard)
  have g: "drop_bit 36 a AND 63 = age p AND 63"
    using len by (intro bit_eqI) (auto simp: and_63_take_bit bit_take_bit_iff bit_drop_bit_eq a packed_bit_age)
  have k: "drop_bit 42 a AND 63 = sv AND 63"
    using len by (intro bit_eqI) (auto simp: and_63_take_bit bit_take_bit_iff bit_drop_bit_eq a packed_bit_skin)
  show ?thesis
    unfolding decode_face_int_def ms h b g k ..
qed

section \<open>Properties of the hexadecimal text\<close>

declare hex_of_nat.simps [simp del]

lemma digit_value_hex_char: "d < 16 \<Longrightarrow> digit_value (hex_char d) = Some d"
proof -
  assume "d < 16"
  then have "d = 0 \<or> d = 1 \<or> d = 2 \<or> d = 3 \<or> d = 4 \<or> d = 5 \<or> d = 6 \<or> d = 7 \<or> d = 8 \<or>
      d = 9 \<or> d = 10 \<or> d = 11 \<or> d = 12 \<or> d = 13 \<or> d = 14 \<or> d = 15"
    by arith
  then show ?thesis
    by (elim disjE) (simp_all add: hex_char_def digit_value_def)
qed

lemma hex_char_lower: "d < 16 \<Longrightarrow> is_lower_hex (hex_char d)"
  unfolding hex_char_def is_lower_hex_def by (rule nth_mem) simp

lemma is_hex_digit_not_special:
  assumes "is_hex_digit c"
  shows "c \<noteq> CHR ''_''" "c \<noteq> CHR ''+''" "c \<noteq> CHR ''-''" "c \<noteq> CHR ''x''" "c \<noteq> CHR ''X''" "\<not> is_space c"
  using assms by (auto simp: is_hex_digit_def digit_value_def is_space_def)

lemma scan_digits_hex:
  "list_all is_hex_digit s \<Longrightarrow>
     scan_digits False ds s = Some (ds @ map (the \<circ> digit_value) s, [])"
proof (induction s arbitrary: ds)
  case Nil
  then show ?case by simp
next
  case (Cons c s)
  then obtain d where d: "digit_value c = Some d"
    by (auto simp: is_hex_digit_def)
  from Cons.prems have "c \<noteq> CHR ''_''"
    by (simp add: is_hex_digit_not_special)
  with Cons d show ?case by simp
qed

lemma digits_value_map: "digits_value (map (the \<circ> digit_value) s) = unsigned_hex s"
  by (simp add: digits_value_def unsigned_hex_def foldl_map)

lemma py_int16_hex:
  assumes "list_all is_hex_digit s" "s \<noteq> []"
  shows "py_int16 s = Some (unsigned_hex s)"
proof -
  from assms obtain c cs where s: "s = c # cs" by (cases s) auto
  with assms have c: "is_hex_digit c" by simp
  have 1: "dropWhile is_space s = s"
    using c by (simp add: s is_hex_digit_not_special)
  have 2: "skip_sign s = (1, s)"
    using c by (simp add: s skip_sign_def is_hex_digit_not_special)
  have 3: "skip_prefix s = s"
  proof (cases cs)
    case Nil
    then show ?thesis by (simp add: s skip_prefix_def)
  next
    case (Cons x xs)
    with assms s have "is_hex_digit x" by simp
    then show ?thesis
      by (simp add: s Cons skip_prefix_def is_hex_digit_not_special)
  qed
  have 4: "hd s \<noteq> CHR ''_''"
    using c by (simp add: s is_hex_digit_not_special)
  show ?thesis
    using assms(2) 4
    by (simp add: py_int16_def 1 2 3 scan_digits_hex [OF assms(1)] digits_value_map)
qed

lemma unsigned_hex_append: "unsigned_hex (s @ [c]) = 16 * unsigned_hex s + int (the (digit_value c))"
  by (simp add: unsigned_hex_def)

lemma unsigned_hex_zeros: "unsigned_hex (replicate k CHR ''0'' @ s) = unsigned_hex s"
proof -
  have d0: "digit_value CHR ''0'' = Some 0"
    by (simp add: digit_value_def)
  have z: "foldl (\<lambda>a c. 16 * a + int (the (digit_value c))) 0 (replicate k CHR ''0'') = 0"
    by (induction k) (simp_all add: d0)
  show ?thesis
    by (simp add: unsigned_hex_def z)
qed

lemma hex_of_nat_props:
  "list_all is_lower_hex (hex_of_nat n) \<and> list_all is_hex_digit (hex_of_nat n) \<and>
   hex_of_nat n \<noteq> [] \<and> unsigned_hex (hex_of_nat n) = int n"
proof (induction n rule: hex_of_nat.induct)
  case (1 n)
  show ?case
  proof (cases "n < 16")
    case True
    then show ?thesis
      using hex_char_lower [of n] digit_value_hex_char [of n]
      by (simp add: hex_of_nat.simps [of n] is_hex_digit_def unsigned_hex_def)
  next
    case False
    have m: "n mod 16 < 16" by simp
    have "16 * int (n div 16) + int (n mod 16) = int n"
      by (simp add: zdiv_int zmod_int)
    with False 1 show ?thesis
      using hex_char_lower [OF m] digit_value_hex_char [OF m]
      by (simp add: hex_of_nat.simps [of n] is_hex_digit_def unsigned_hex_append)
  qed
qed

lemma length_hex_of_nat: "0 < k \<Longrightarrow> n < 16 ^ k \<Longrightarrow> length (hex_of_nat n) \<le> k"
proof (induction n arbitrary: k rule: hex_of_nat.induct)
  case (1 n)
  show ?case
  proof (cases "n < 16")
    case True
    with 1 show ?thesis by (simp add: hex_of_nat.simps [of n])
  next
    case False
    with "1.prems" obtain k' where k: "k = Suc k'" by (cases k) auto
    with False "1.prems" have "0 < k'" by (cases k') auto
    moreover from "1.prems" k have "n div 16 < 16 ^ k'"
      by (simp add: less_mult_imp_div_less mult.commute)
    ultimately have "length (hex_of_nat (n div 16)) \<le> k'"
      using "1.IH" False by blast
    with False k show ?thesis by (simp add: hex_of_nat.simps [of n])
  qed
qed

lemma valid_params_iff:
  "valid_params p \<longleftrightarrow>
     length (morphs p) = 8 \<and> (\<forall>m \<in> set (morphs p). 0 \<le> m \<and> m \<le> 7) \<and>
     0 \<le> hair_index p \<and> hair_index p \<le> 63 \<and> 0 \<le> beard_index p \<and> beard_index p \<le> 63 \<and>
     0 \<le> age p \<and> age p \<le> 63 \<and> 0 \<le> skin_tone p \<and> skin_tone p \<le> 4"
proof -
  have "0 \<le> k \<and> k \<le> 4 \<longleftrightarrow> k = 0 \<or> k = 1 \<or> k = 2 \<or> k = 3 \<or> k = 4" for k :: int
    by arith
  then show ?thesis
    by (auto simp: valid_params_def FaceParameters_init_def invalid_fields_def field_errors_def
        validate_morph_values_def validate_skin_tone_def list_all_iff)
qed

lemma packed_bounds:
  assumes "\<forall>n. bit (a::int) n = packed_bit p sv n" "length (morphs p) \<le> 8"
  shows "0 \<le> a \<and> a < 2 ^ 48"
proof -
  have "n < 48" if "packed_bit p sv n" for n
    using that assms(2) unfolding packed_bit_def by auto
  then have "take_bit 48 a = a"
    by (intro bit_eqI) (auto simp: bit_take_bit_iff assms(1))
  then show ?thesis
    by (metis take_bit_nonnegative take_bit_int_less_exp)
qed

lemma list_all_replicate: "P x \<Longrightarrow> list_all P (replicate k x)"
  by (induction k) simp_all

lemma format_016x_small:
  assumes "0 \<le> a" "a < 2 ^ 48"
  shows "length (format_016x a) = 16"
    and "list_all is_lower_hex (format_016x a)"
    and "list_all is_hex_digit (format_016x a)"
    and "unsigned_hex (format_016x a) = a"
proof -
  let ?ds = "hex_of_nat (nat a)"
  have "a < 16 ^ 12" using assms(2) by simp
  then have "nat a < 16 ^ 12" using assms(1) by (simp only: nat_less_iff) simp
  then have len: "length ?ds \<le> 12"
    by (intro length_hex_of_nat) simp_all
  have f: "format_016x a = replicate (16 - length ?ds) CHR ''0'' @ ?ds"
    using assms(1) by (simp add: format_016x_def Let_def)
  from len show "length (format_016x a) = 16"
    by (simp add: f)
  have l: "is_lower_hex CHR ''0''" by (simp add: is_lower_hex_def)
  have z: "is_hex_digit CHR ''0''" by (simp add: is_hex_digit_def digit_value_def)
  have props: "list_all is_lower_hex ?ds" "list_all is_hex_digit ?ds" "unsigned_hex ?ds = int (nat a)"
    using hex_of_nat_props [of "nat a"] by blast+
  show "list_all is_lower_hex (format_016x a)"
    unfolding f list_all_append using props(1) list_all_replicate [of is_lower_hex, OF l] by blast
  show "list_all is_hex_digit (format_016x a)"
    unfolding f list_all_append using props(2) list_all_replicate [of is_hex_digit, OF z] by blast
  show "unsigned_hex (format_016x a) = a"
    unfolding f unsigned_hex_zeros props(3) using assms(1) by simp
qed

lemma strip_0x_prefixed: "strip_0x (''0x'' @ t) = t"
  by (simp add: strip_0x_def startswith_def)

lemma py_index_valid:
  assumes "0 \<le> i" "i \<le> 4"
  shows "py_index skin_values i = Inr (16 * i)"
proof -
  from assms have "i = 0 \<or> i = 1 \<or> i = 2 \<or> i = 3 \<or> i = 4" by arith
  then show ?thesis by (auto simp: py_index_skin_values)
qed

lemma skin_roundtrip:
  assumes "0 \<le> i" "i \<le> 4"
  shows "dict_get skin_map ((16 * i) AND 63) 0 = (if i = 4 then 0 else i)"
proof -
  from assms have "i = 0 \<or> i = 1 \<or> i = 2 \<or> i = 3 \<or> i = 4" by arith
  then show ?thesis by (auto simp: dict_get_def skin_map_def)
qed

lemma in_range_masks:
  "0 \<le> (m::int) \<Longrightarrow> m \<le> 7 \<Longrightarrow> m AND 7 = m"
  "0 \<le> (h::int) \<Longrightarrow> h \<le> 63 \<Longrightarrow> h AND 63 = h"
  by (simp_all add: and_7_take_bit and_63_take_bit take_bit_int_eq_self)

lemma roundtrip_except_skin_4:
  assumes "valid_params p"
  shows "\<exists>s. encode_face_code p = Inr s \<and>
           decode_face_code s = Inr (p\<lparr>skin_tone := (if skin_tone p = 4 then 0 else skin_tone p)\<rparr>)"
proof -
  from assms have v: "length (morphs p) = 8" "\<forall>m \<in> set (morphs p). 0 \<le> m \<and> m \<le> 7"
    "0 \<le> hair_index p" "hair_index p \<le> 63" "0 \<le> beard_index p" "beard_index p \<le> 63"
    "0 \<le> age p" "age p \<le> 63" "0 \<le> skin_tone p" "skin_tone p \<le> 4"
    by (simp_all add: valid_params_iff)
  have sv: "py_index skin_values (skin_tone p) = Inr (16 * skin_tone p)"
    using v by (simp add: py_index_valid)
  from encode_face_int_bits [OF sv] obtain a where
    a: "encode_face_int p = Inr a" and bits: "\<forall>n. bit a n = packed_bit p (16 * skin_tone p) n"
    by blast
  have bnd: "0 \<le> a" "a < 2 ^ 48"
    using packed_bounds [OF bits] v(1) by simp_all
  have enc: "encode_face_code p = Inr (''0x'' @ format_016x a)"
    by (simp add: encode_face_code_def a)
  have ne: "format_016x a \<noteq> []"
    using format_016x_small(1) [OF bnd] by auto
  have parse: "py_int16 (format_016x a) = Some a"
    using py_int16_hex [OF format_016x_small(3) [OF bnd] ne] format_016x_small(4) [OF bnd]
    by simp
  have ms: "map (\<lambda>m. m AND 7) (morphs p) = morphs p"
    using v(2) by (simp add: map_idI in_range_masks)
  have "decode_face_int a = p\<lparr>skin_tone := (if skin_tone p = 4 then 0 else skin_tone p)\<rparr>"
    using v by (simp add: decode_packed [OF bits v(1)] ms in_range_masks skin_roundtrip)
  then have "decode_face_code (''0x'' @ format_016x a) =
      Inr (p\<lparr>skin_tone := (if skin_tone p = 4 then 0 else skin_tone p)\<rparr>)"
    unfolding decode_face_code_def Let_def strip_0x_prefixed parse by simp
  with enc show ?thesis by blast
qed

section \<open>The parser accepts exactly the integer literals\<close>

lemma underscore_not_hex: "\<not> is_hex_digit CHR ''_''"
  by (simp add: is_hex_digit_def digit_value_def)

lemma hex_body_Cons: "hex_body (c # cs) \<Longrightarrow> is_hex_digit c"
  by (cases cs) auto

text \<open>Completeness of the scan on a body followed by something that stops it.\<close>

lemma scan_digits_stop: "stops rest \<Longrightarrow> scan_digits False ds rest = Some (ds, rest)"
  by (cases rest) (auto simp: stops_def is_hex_digit_def)

lemma scan_digits_body:
  "hex_body body \<Longrightarrow> stops rest \<Longrightarrow>
     scan_digits prev ds (body @ rest) = Some (ds @ body_digits body, rest)"
proof (induction body arbitrary: prev ds rule: hex_body.induct)
  case 1
  then show ?case by simp
next
  case (2 c)
  then obtain d where "digit_value c = Some d" by (auto simp: is_hex_digit_def)
  moreover from 2 have "c \<noteq> CHR ''_''" using underscore_not_hex by auto
  ultimately show ?case
    using 2 by (simp add: scan_digits_stop body_digits_def)
next
  case (3 c u cs)
  then obtain d where d: "digit_value c = Some d" by (auto simp: is_hex_digit_def)
  from 3 have c: "c \<noteq> CHR ''_''" using underscore_not_hex by auto
  show ?case
  proof (cases "u = CHR ''_''")
    case True
    with 3 have "hex_body cs" by simp
    from "3.IH"(1) [OF True this "3.prems"(2)] show ?thesis
      using True c d by (simp add: body_digits_def)
  next
    case False
    with 3 have "hex_body (u # cs)" by simp
    from "3.IH"(2) [OF False this "3.prems"(2)] show ?thesis
      using False c d by (simp add: body_digits_def)
  qed
qed

text \<open>Soundness of the scan: what it consumed is a body, or nothing.\<close>

lemma scan_digits_sound:
  "scan_digits prev ds s = Some (ds', rest) \<Longrightarrow>
     \<exists>body. s = body @ rest \<and> ds' = ds @ body_digits body \<and>
       (if prev then hex_body body
        else body = [] \<or> hex_body body \<or> (\<exists>b. body = CHR ''_'' # b \<and> hex_body b))"
proof (induction s arbitrary: prev ds)
  case Nil
  then show ?case by (auto simp: body_digits_def split: if_splits)
next
  case (Cons c cs)
  show ?case
  proof (cases "c = CHR ''_''")
    case True
    with Cons.prems have np: "\<not> prev" and sc: "scan_digits True ds cs = Some (ds', rest)"
      by (auto split: if_splits)
    from Cons.IH [OF sc] obtain b where "cs = b @ rest" "ds' = ds @ body_digits b" "hex_body b"
      by auto
    then show ?thesis
      using True np by (intro exI [of _ "c # b"]) (simp add: body_digits_def)
  next
    case False
    show ?thesis
    proof (cases "digit_value c")
      case None
      with False Cons.prems have "\<not> prev" "ds' = ds" "rest = c # cs"
        by (auto split: if_splits)
      then show ?thesis
        by (intro exI [of _ "[]"]) (simp add: body_digits_def)
    next
      case (Some d)
      with False Cons.prems have sc: "scan_digits False (ds @ [d]) cs = Some (ds', rest)"
        by simp
      from Cons.IH [OF sc] obtain b where b: "cs = b @ rest" "ds' = (ds @ [d]) @ body_digits b"
        "b = [] \<or> hex_body b \<or> (\<exists>b'. b = CHR ''_'' # b' \<and> hex_body b')"
        by auto
      have hc: "is_hex_digit c" using Some by (simp add: is_hex_digit_def)
      have "hex_body (c # b)"
        using b(3) hc
      proof (elim disjE exE conjE)
        assume "b = []" then show ?thesis using hc by simp
      next
        assume h: "hex_body b"
        then obtain x xs where x: "b = x # xs" by (cases b) auto
        with h have "x \<noteq> CHR ''_''" using hex_body_Cons underscore_not_hex by blast
        with h x hc show ?thesis by simp
      next
        fix b' assume "b = CHR ''_'' # b'" "hex_body b'"
        then show ?thesis using hc by simp
      qed
      then show ?thesis
        using b(1,2) False Some by (intro exI [of _ "c # b"]) (simp add: body_digits_def)
    qed
  qed
qed


lemma skip_sign_disj:
  "skip_sign t = (1, t) \<or> (t = ''+'' @ snd (skip_sign t) \<and> fst (skip_sign t) = 1) \<or>
   (t = ''-'' @ snd (skip_sign t) \<and> fst (skip_sign t) = - 1)"
  by (simp add: skip_sign_def split: list.split)

lemma skip_sign_cases:
  assumes "skip_sign t = (sn, r)"
  shows "\<exists>sg. t = sg @ r \<and> sg \<in> {[], ''+'', ''-''} \<and> sn = (if sg = ''-'' then - 1 else 1)"
  using skip_sign_disj [of t]
proof (elim disjE conjE)
  assume "skip_sign t = (1, t)"
  with assms show ?thesis by (intro exI [of _ "[]"]) simp
next
  assume "t = ''+'' @ snd (skip_sign t)" "fst (skip_sign t) = 1"
  with assms show ?thesis by (intro exI [of _ "''+''"]) simp
next
  assume "t = ''-'' @ snd (skip_sign t)" "fst (skip_sign t) = - 1"
  with assms show ?thesis by (intro exI [of _ "''-''"]) simp
qed

lemma skip_prefix_disj:
  "skip_prefix t = t \<or> t = ''0x'' @ skip_prefix t \<or> t = ''0X'' @ skip_prefix t \<or>
   t = ''0x_'' @ skip_prefix t \<or> t = ''0X_'' @ skip_prefix t"
  by (simp add: skip_prefix_def split: list.split)

lemma skip_prefix_cases:
  "\<exists>pre. t = pre @ skip_prefix t \<and> pre \<in> {[], ''0x'', ''0X'', ''0x_'', ''0X_''}"
  using skip_prefix_disj [of t]
proof (elim disjE)
  assume "skip_prefix t = t"
  then show ?thesis by (intro exI [of _ "[]"]) simp
next
  assume "t = ''0x'' @ skip_prefix t"
  then show ?thesis by (intro exI [of _ "''0x''"]) simp
next
  assume "t = ''0X'' @ skip_prefix t"
  then show ?thesis by (intro exI [of _ "''0X''"]) simp
next
  assume "t = ''0x_'' @ skip_prefix t"
  then show ?thesis by (intro exI [of _ "''0x_''"]) simp
next
  assume "t = ''0X_'' @ skip_prefix t"
  then show ?thesis by (intro exI [of _ "''0X_''"]) simp
qed

lemma body_digits_nonempty: "hex_body body \<Longrightarrow> body_digits body \<noteq> []"
proof (cases body)
  case Nil
  assume "hex_body body" with Nil show ?thesis by simp
next
  case (Cons c cs)
  assume "hex_body body"
  with Cons have "is_hex_digit c" using hex_body_Cons by blast
  then have "c \<noteq> CHR ''_''" using underscore_not_hex by auto
  with Cons show ?thesis by (simp add: body_digits_def)
qed

lemma digits_value_body:
  "digits_value (body_digits body) = unsigned_hex (filter (\<lambda>c. c \<noteq> CHR ''_'') body)"
  by (simp add: body_digits_def digits_value_map)

lemma py_int16_sound:
  assumes "py_int16 s = Some n"
  shows "int_literal16 s n"
proof -
  obtain sn s2 where ss: "skip_sign (dropWhile is_space s) = (sn, s2)"
    by (cases "skip_sign (dropWhile is_space s)")
  let ?s3 = "skip_prefix s2"
  from assms ss have nu: "\<not> (?s3 \<noteq> [] \<and> hd ?s3 = CHR ''_'')"
    by (auto simp: py_int16_def split: if_splits)
  with assms ss obtain ds rest where sc: "scan_digits False [] ?s3 = Some (ds, rest)"
    and ds: "ds \<noteq> []" and ws: "dropWhile is_space rest = []" and n: "n = sn * digits_value ds"
    by (auto simp: py_int16_def split: if_splits option.splits)
  from scan_digits_sound [OF sc] obtain body where body: "?s3 = body @ rest"
    "ds = body_digits body"
    "body = [] \<or> hex_body body \<or> (\<exists>b. body = CHR ''_'' # b \<and> hex_body b)"
    by auto
  from body(2) ds have "body \<noteq> []" by (auto simp: body_digits_def)
  moreover from nu body(1) have "\<not> (\<exists>b. body = CHR ''_'' # b)" by auto
  ultimately have hb: "hex_body body" using body(3) by blast
  from skip_sign_cases [OF ss] obtain sg where sg: "dropWhile is_space s = sg @ s2"
    "sg \<in> {[], ''+'', ''-''}" "sn = (if sg = ''-'' then - 1 else 1)"
    by blast
  from skip_prefix_cases [of s2] obtain pre where pre: "s2 = pre @ ?s3"
    "pre \<in> {[], ''0x'', ''0X'', ''0x_'', ''0X_''}"
    by blast
  have "s = takeWhile is_space s @ dropWhile is_space s" by simp
  also have "\<dots> = takeWhile is_space s @ sg @ pre @ body @ rest"
    using sg(1) pre(1) body(1) by simp
  finally have s: "s = takeWhile is_space s @ sg @ pre @ body @ rest" .
  have w1: "list_all is_space (takeWhile is_space s)"
    by (auto simp: list_all_iff dest: set_takeWhileD)
  have w2: "list_all is_space rest"
    using ws by (simp add: list_all_iff dropWhile_eq_Nil_conv)
  have v: "n = (if sg = ''-'' then - 1 else 1) * unsigned_hex (filter (\<lambda>c. c \<noteq> CHR ''_'') body)"
    by (simp only: n sg(3) body(2) digits_value_body)
  show ?thesis
    unfolding int_literal16_def
    using s w1 w2 sg(2) pre(2) hb v
    by (intro exI [of _ "takeWhile is_space s"] exI [of _ sg] exI [of _ pre] exI [of _ body]
        exI [of _ rest] conjI)
qed

lemma stops_spaces: "list_all is_space ws \<Longrightarrow> stops ws"
  by (cases ws) (auto simp: stops_def is_space_def is_hex_digit_def digit_value_def)

lemma dropWhile_spaces:
  assumes "list_all is_space ws" "t \<noteq> []" "\<not> is_space (hd t)"
  shows "dropWhile is_space (ws @ t) = t"
proof -
  have "dropWhile is_space (ws @ t) = dropWhile is_space t"
    using assms(1) by (intro dropWhile_append2) (simp add: list_all_iff)
  also have "\<dots> = t"
    using assms(2,3) by (cases t) auto
  finally show ?thesis .
qed

lemma py_int16_complete:
  assumes "int_literal16 s n"
  shows "py_int16 s = Some n"
proof -
  from assms obtain ws1 sg pre body ws2 where
    s: "s = ws1 @ sg @ pre @ body @ ws2" and w1: "list_all is_space ws1"
    and w2: "list_all is_space ws2" and sg: "sg \<in> {[], ''+'', ''-''}"
    and pre: "pre \<in> {[], ''0x'', ''0X'', ''0x_'', ''0X_''}" and hb: "hex_body body"
    and n: "n = (if sg = ''-'' then - 1 else 1) * unsigned_hex (filter (\<lambda>c. c \<noteq> CHR ''_'') body)"
    unfolding int_literal16_def by blast
  from hb obtain c cs where body: "body = c # cs" by (cases body) auto
  with hb have c: "is_hex_digit c" using hex_body_Cons by blast
  note cn = is_hex_digit_not_special [OF c]
  let ?z = "body @ ws2"
  have 3: "skip_prefix (pre @ ?z) = ?z"
  proof -
    have "skip_prefix ?z = ?z"
    proof (cases "cs @ ws2")
      case Nil
      then show ?thesis by (simp add: skip_prefix_def body)
    next
      case (Cons x xs)
      have "x \<noteq> CHR ''x'' \<and> x \<noteq> CHR ''X''"
      proof (cases cs)
        case Nil
        with Cons w2 have "is_space x" by simp
        then show ?thesis by (auto simp: is_space_def)
      next
        case (Cons y ys)
        with \<open>cs @ ws2 = x # xs\<close> have "y = x" by simp
        with Cons hb body have "x = CHR ''_'' \<or> is_hex_digit x"
          by (auto dest: hex_body_Cons split: if_splits)
        then show ?thesis
          using is_hex_digit_not_special(4,5) [of x] by auto
      qed
      with Cons show ?thesis by (simp add: skip_prefix_def body)
    qed
    moreover have "skip_prefix (''0x'' @ ?z) = ?z" "skip_prefix (''0X'' @ ?z) = ?z"
      "skip_prefix (''0x_'' @ ?z) = ?z" "skip_prefix (''0X_'' @ ?z) = ?z"
      using cn(1) by (simp_all add: skip_prefix_def body)
    ultimately show ?thesis
      using pre by (elim insertE emptyE) (simp_all only: append_Nil)
  qed
  have h: "pre @ ?z \<noteq> []" "hd (pre @ ?z) = CHR ''0'' \<or> hd (pre @ ?z) = c"
    using pre by (auto simp: body)
  have hn: "hd (pre @ ?z) \<noteq> CHR ''+''" "hd (pre @ ?z) \<noteq> CHR ''-''" "\<not> is_space (hd (pre @ ?z))"
    using h(2) cn by (auto simp: is_space_def)
  obtain y ys where y: "pre @ ?z = y # ys"
    using h(1) by (cases "pre @ ?z") auto
  have 2: "skip_sign (sg @ pre @ ?z) = (if sg = ''-'' then - 1 else 1, pre @ ?z)"
    using sg hn(1,2) unfolding y by (auto simp: skip_sign_def)
  have "sg @ pre @ ?z \<noteq> []" "\<not> is_space (hd (sg @ pre @ ?z))"
    using sg hn(3) unfolding y by (auto simp: is_space_def)
  then have 1: "dropWhile is_space s = sg @ pre @ ?z"
    unfolding s using dropWhile_spaces [OF w1] by simp
  have 4: "scan_digits False [] ?z = Some (body_digits body, ws2)"
    using scan_digits_body [OF hb stops_spaces [OF w2], of False "[]"] by simp
  have 5: "dropWhile is_space ws2 = []"
    using w2 by (simp add: dropWhile_eq_Nil_conv list_all_iff)
  have 6: "hd ?z \<noteq> CHR ''_''"
    using cn by (simp add: body)
  show ?thesis
    using 4 5 6 body_digits_nonempty [OF hb]
    by (simp add: py_int16_def 1 2 3 Let_def n digits_value_body)
qed

lemma py_int16_iff: "py_int16 s = Some n \<longleftrightarrow> int_literal16 s n"
  using py_int16_sound py_int16_complete by blast

section \<open>The claims about the codec\<close>

lemma valid_example_params: "0 \<le> tone \<Longrightarrow> tone \<le> 4 \<Longrightarrow> valid_params (example_params tone)"
  by (simp add: valid_params_iff example_params_def)

lemma format_example_4: "format_016x 2083243345544 = ''000001e50afac688''"
  by (simp add: format_016x_def hex_of_nat.simps hex_char_def) (simp add: eval_nat_numeral)

lemma parse_example_4: "py_int16 ''000001e50afac688'' = Some 2083243345544"
  by (simp add: py_int16_def skip_sign_def skip_prefix_def is_space_def digit_value_def
      digits_value_def)

lemma encode_int_example_4: "encode_face_int (example_params 4) = Inr 2083243345544"
  by (simp add: example_params_def encode_face_int_def py_index_def skin_values_def MORPH_BITS_def)

lemma decode_int_example_4: "decode_face_int 2083243345544 = example_params 0"
  by (simp add: example_params_def decode_face_int_def MORPH_BITS_def dict_get_def skin_map_def
      upt_rec drop_bit_eq_div)

text \<open>
  Claim C1 (round-trip identity). Decoding the encoding of a valid record gives the record
  back in every field but one: skin tone 4 comes back as 0, as
  \<open>roundtrip_except_skin_4\<close> shows for every valid record. On the example record with
  skin tone 4 the encoder returns \<open>0x000001e50afac688\<close> and the decoder reads skin
  tone 0 from it, so the round trip the claim states fails there.
\<close>

theorem roundtrip_loses_skin_tone_4:
  "valid_params (example_params 4) \<and>
   encode_face_code (example_params 4) = Inr ''0x000001e50afac688'' \<and>
   decode_face_code ''0x000001e50afac688'' = Inr (example_params 0) \<and>
   example_params 0 \<noteq> example_params 4"
proof -
  have "encode_face_code (example_params 4) = Inr ''0x000001e50afac688''"
    by (simp add: encode_face_code_def encode_int_example_4 format_example_4)
  moreover have "strip_0x ''0x000001e50afac688'' = ''000001e50afac688''"
    by (simp add: strip_0x_def startswith_def)
  then have "decode_face_code ''0x000001e50afac688'' = Inr (example_params 0)"
    by (simp only: decode_face_code_def Let_def parse_example_4 decode_int_example_4 option.case)
  moreover have "example_params 0 \<noteq> example_params 4"
    by (simp add: example_params_def)
  ultimately show ?thesis
    by (simp add: valid_example_params)
qed

text \<open>
  Claim C2 (skin-tone palette). Index 4 selects the palette code 64, which the six-bit
  mask turns into 0 before it is placed at bits 42 to 47: the field of the encoded
  example record with skin tone 4 holds 0, not 64. The lemmas after the theorem give
  the field for every index 0 to 4 and show what the decoder reads from each raw code.
\<close>

theorem skin_tone_4_packs_code_0:
  "encode_face_int (example_params 4) = Inr 2083243345544 \<and>
   drop_bit 42 (2083243345544 :: int) AND 63 = 0 \<and>
   py_index skin_values 4 = Inr 64 \<and> (64 :: int) AND 63 = 0"
  by (simp add: encode_int_example_4 drop_bit_eq_div py_index_def skin_values_def)

lemma skin_palette_encode:
  assumes "length (morphs p) \<le> 8" "0 \<le> skin_tone p" "skin_tone p \<le> 4"
  shows "\<exists>a. encode_face_int p = Inr a \<and>
           drop_bit 42 a AND 63 = (if skin_tone p = 4 then 0 else 16 * skin_tone p)"
proof -
  have sv: "py_index skin_values (skin_tone p) = Inr (16 * skin_tone p)"
    using assms by (simp add: py_index_valid)
  from encode_face_int_bits [OF sv] obtain a where
    a: "encode_face_int p = Inr a" and bits: "\<forall>n. bit a n = packed_bit p (16 * skin_tone p) n"
    by blast
  have "drop_bit 42 a AND 63 = (16 * skin_tone p) AND 63"
    using assms(1)
    by (intro bit_eqI) (auto simp: and_63_take_bit bit_take_bit_iff bit_drop_bit_eq bits packed_bit_skin)
  moreover from assms have "skin_tone p = 0 \<or> skin_tone p = 1 \<or> skin_tone p = 2 \<or> skin_tone p = 3 \<or> skin_tone p = 4"
    by arith
  then have "(16 * skin_tone p) AND 63 = (if skin_tone p = 4 then 0 else 16 * skin_tone p)"
    by auto
  ultimately show ?thesis using a by simp
qed

lemma raw_skin_code_range: "0 \<le> drop_bit 42 face_int AND 63 \<and> drop_bit 42 face_int AND 63 \<le> (63::int)"
  by (simp add: AND_upper2')

lemma skin_palette_decode:
  "skin_tone (decode_face_int face_int) =
     (let raw = drop_bit 42 face_int AND 63
      in if raw = 16 then 1 else if raw = 32 then 2 else if raw = 48 then 3 else 0)"
proof -
  have "drop_bit 42 face_int AND 63 \<noteq> 64"
    using raw_skin_code_range [of face_int] by linarith
  then show ?thesis
    by (auto simp: decode_face_int_def dict_get_def skin_map_def Let_def)
qed

text \<open>
  Claim C3 (skin-tone fallback on decode). Whenever the text parses to an integer whose
  six-bit field at bits 42 to 47 is none of 0, 16, 32, 48 and 64, decoding succeeds
  and the decoded skin tone is 0.
\<close>

theorem decode_skin_tone_fallback:
  assumes "py_int16 (strip_0x hex_code) = Some face_int"
    and "drop_bit 42 face_int AND 63 \<notin> {0, 16, 32, 48, 64}"
  shows "\<exists>d. decode_face_code hex_code = Inr d \<and> skin_tone d = 0"
  using assms
  by (simp add: decode_face_code_def decode_face_int_def dict_get_def skin_map_def)

lemma parse_raw_5: "py_int16 ''140000000000'' = Some 21990232555520"
  by (simp add: py_int16_def skip_sign_def skip_prefix_def is_space_def digit_value_def
      digits_value_def)

theorem decode_skin_tone_fallback_witness:
  "drop_bit 42 (21990232555520 :: int) AND 63 = 5 \<and>
   (\<exists>d. decode_face_code ''0x140000000000'' = Inr d \<and> skin_tone d = 0)"
proof -
  have s: "strip_0x ''0x140000000000'' = ''140000000000''"
    by (simp add: strip_0x_def startswith_def)
  have r: "drop_bit 42 (21990232555520 :: int) AND 63 = 5"
    by (simp add: drop_bit_eq_div)
  have p: "py_int16 (strip_0x ''0x140000000000'') = Some 21990232555520"
    by (simp only: s parse_raw_5)
  from decode_skin_tone_fallback [OF p] r show ?thesis by simp
qed

text \<open>
  Claim C4 (canonical encoding format). For every valid record the encoder succeeds with
  a string of exactly 18 characters: \<open>0x\<close>, then 16 lowercase hexadecimal digits that
  are the packed integer padded with zeros, and the string matches the pattern of
  \<open>FaceCode\<close>.
\<close>

theorem encode_canonical_format:
  assumes "valid_params p"
  shows "\<exists>s a. encode_face_code p = Inr s \<and> encode_face_int p = Inr a \<and>
           length s = 18 \<and> take 2 s = ''0x'' \<and> list_all is_lower_hex (drop 2 s) \<and>
           drop 2 s = format_016x a \<and> unsigned_hex (drop 2 s) = a \<and> hex_code_pattern s"
proof -
  from assms have v: "length (morphs p) = 8" "0 \<le> skin_tone p" "skin_tone p \<le> 4"
    by (simp_all add: valid_params_iff)
  have sv: "py_index skin_values (skin_tone p) = Inr (16 * skin_tone p)"
    using v by (simp add: py_index_valid)
  from encode_face_int_bits [OF sv] obtain a where
    a: "encode_face_int p = Inr a" and bits: "\<forall>n. bit a n = packed_bit p (16 * skin_tone p) n"
    by blast
  have bnd: "0 \<le> a" "a < 2 ^ 48"
    using packed_bounds [OF bits] v(1) by simp_all
  note f = format_016x_small [OF bnd]
  have enc: "encode_face_code p = Inr (''0x'' @ format_016x a)"
    by (simp add: encode_face_code_def a)
  have ne: "format_016x a \<noteq> []"
    using f(1) by auto
  have nl: "last (format_016x a) \<noteq> CHR 0x0A"
  proof -
    have "last (format_016x a) \<in> set (format_016x a)" using ne by simp
    with f(3) have "is_hex_digit (last (format_016x a))" by (simp add: list_all_iff)
    then show ?thesis by (auto simp: is_hex_digit_def digit_value_def)
  qed
  have pat: "hex_code_pattern (''0x'' @ format_016x a)"
    using ne nl f(3) by (simp add: hex_code_pattern_def startswith_def)
  show ?thesis
    using enc a f pat by simp
qed

theorem encode_canonical_format_witness:
  "\<exists>s a. encode_face_code (example_params 2) = Inr s \<and> encode_face_int (example_params 2) = Inr a \<and>
         length s = 18 \<and> take 2 s = ''0x'' \<and> list_all is_lower_hex (drop 2 s) \<and>
         drop 2 s = format_016x a \<and> unsigned_hex (drop 2 s) = a \<and> hex_code_pattern s"
  by (rule encode_canonical_format) (simp add: valid_example_params)

text \<open>
  Two values of one morph, in range or not, give packed integers that agree on every
  bit outside the three bits of that morph.
\<close>

lemma morph_update_containment:
  assumes "i < length (morphs p)" and "0 \<le> skin_tone p" and "skin_tone p \<le> 4"
  shows "\<exists>a b. encode_face_int (p\<lparr>morphs := (morphs p)[i := v]\<rparr>) = Inr a \<and>
               encode_face_int (p\<lparr>morphs := (morphs p)[i := w]\<rparr>) = Inr b \<and>
               (\<forall>n. n < 3 * i \<or> 3 * i + 3 \<le> n \<longrightarrow> bit a n = bit b n)"
proof -
  let ?pv = "p\<lparr>morphs := (morphs p)[i := v]\<rparr>" and ?pw = "p\<lparr>morphs := (morphs p)[i := w]\<rparr>"
  have sv: "py_index skin_values (skin_tone ?pv) = Inr (16 * skin_tone p)"
    "py_index skin_values (skin_tone ?pw) = Inr (16 * skin_tone p)"
    using assms by (simp_all add: py_index_valid)
  from encode_face_int_bits [OF sv(1)] obtain a where
    a: "encode_face_int ?pv = Inr a" "\<forall>n. bit a n = packed_bit ?pv (16 * skin_tone p) n"
    by blast
  from encode_face_int_bits [OF sv(2)] obtain b where
    b: "encode_face_int ?pw = Inr b" "\<forall>n. bit b n = packed_bit ?pw (16 * skin_tone p) n"
    by blast
  have "packed_bit ?pv sv' n = packed_bit ?pw sv' n" if "n < 3 * i \<or> 3 * i + 3 \<le> n" for n sv'
  proof -
    have "(3 * j \<le> n \<and> n < 3 * j + 3 \<and> bit ((morphs p)[i := v] ! j) (n - 3 * j)) =
          (3 * j \<le> n \<and> n < 3 * j + 3 \<and> bit ((morphs p)[i := w] ! j) (n - 3 * j))" for j
      using that by (cases "j = i") auto
    then show ?thesis
      by (simp add: packed_bit_def)
  qed
  with a b show ?thesis by auto
qed

text \<open>
  Claim C5 (field masking containment). Every field is masked to its width before it is
  shifted into place. Whatever integers the eight morphs, the hair index, the beard
  index and the age hold, in range or not, each bit field of the packed integer holds
  exactly the low bits of its own field (three for a morph, six for the others) and
  no bit above bit 47 is set; so a value out of range changes no bit of another field,
  and decoding gives every field cut to its width.
\<close>

theorem field_mask_containment:
  assumes "length (morphs p) = 8" and "0 \<le> skin_tone p" and "skin_tone p \<le> 4"
  shows "\<exists>a. encode_face_int p = Inr a \<and>
           (\<forall>j n. j < 8 \<and> n < 3 \<longrightarrow> bit a (3 * j + n) = bit (morphs p ! j) n) \<and>
           (\<forall>n. n < 6 \<longrightarrow> bit a (24 + n) = bit (hair_index p) n) \<and>
           (\<forall>n. n < 6 \<longrightarrow> bit a (30 + n) = bit (beard_index p) n) \<and>
           (\<forall>n. n < 6 \<longrightarrow> bit a (36 + n) = bit (age p) n) \<and>
           (\<forall>n. n < 6 \<longrightarrow> bit a (42 + n) = bit (16 * skin_tone p) n) \<and>
           (\<forall>n. 48 \<le> n \<longrightarrow> \<not> bit a n) \<and>
           decode_face_int a =
             \<lparr> morphs = map (\<lambda>m. m AND 7) (morphs p),
               hair_index = hair_index p AND 63,
               beard_index = beard_index p AND 63,
               age = age p AND 63,
               skin_tone = (if skin_tone p = 4 then 0 else skin_tone p) \<rparr>"
proof -
  have sv: "py_index skin_values (skin_tone p) = Inr (16 * skin_tone p)"
    using assms by (simp add: py_index_valid)
  from encode_face_int_bits [OF sv] obtain a where
    a: "encode_face_int p = Inr a" and bits: "\<forall>n. bit a n = packed_bit p (16 * skin_tone p) n"
    by blast
  have len: "length (morphs p) \<le> 8" using assms(1) by simp
  have m: "bit a (3 * j + n) = bit (morphs p ! j) n" if "j < 8 \<and> n < 3" for j n
    using that assms(1) len by (simp add: bits packed_bit_morph)
  have h: "bit a (24 + n) = bit (hair_index p) n" if "n < 6" for n
    using that len by (simp add: bits packed_bit_hair)
  have b: "bit a (30 + n) = bit (beard_index p) n" if "n < 6" for n
    using that len by (simp add: bits packed_bit_beard)
  have g: "bit a (36 + n) = bit (age p) n" if "n < 6" for n
    using that len by (simp add: bits packed_bit_age)
  have k: "bit a (42 + n) = bit (16 * skin_tone p) n" if "n < 6" for n
    using that len by (simp add: bits packed_bit_skin)
  have top: "\<not> bit a n" if "48 \<le> n" for n
  proof
    assume "bit a n"
    then have "packed_bit p (16 * skin_tone p) n" by (simp add: bits)
    then have "n < 48" using len unfolding packed_bit_def by auto
    with that show False by simp
  qed
  have d: "decode_face_int a =
             \<lparr> morphs = map (\<lambda>m. m AND 7) (morphs p),
               hair_index = hair_index p AND 63,
               beard_index = beard_index p AND 63,
               age = age p AND 63,
               skin_tone = (if skin_tone p = 4 then 0 else skin_tone p) \<rparr>"
    using assms(2,3) by (simp add: decode_packed [OF bits assms(1)] skin_roundtrip)
  from a m h b g k top d show ?thesis by blast
qed

theorem field_mask_containment_witness:
  "\<exists>a. encode_face_int \<lparr> morphs = [0, 1, 2, 255, 4, 5, 6, 7], hair_index = 64, beard_index = 20,
                          age = - 1, skin_tone = 2 \<rparr> = Inr a \<and>
       decode_face_int a =
         \<lparr> morphs = [0, 1, 2, 7, 4, 5, 6, 7], hair_index = 0, beard_index = 20, age = 63,
           skin_tone = 2 \<rparr>"
proof -
  let ?p = "\<lparr> morphs = [0, 1, 2, 255, 4, 5, 6, 7], hair_index = 64, beard_index = 20,
              age = - 1, skin_tone = 2 \<rparr>"
  have "length (morphs ?p) = 8" "0 \<le> skin_tone ?p" "skin_tone ?p \<le> 4" by simp_all
  from field_mask_containment [OF this] obtain a where
    "encode_face_int ?p = Inr a"
    "decode_face_int a =
       \<lparr> morphs = map (\<lambda>m. m AND 7) (morphs ?p), hair_index = hair_index ?p AND 63,
         beard_index = beard_index ?p AND 63, age = age ?p AND 63,
         skin_tone = (if skin_tone ?p = 4 then 0 else skin_tone ?p) \<rparr>"
    by blast
  then show ?thesis by (intro exI [of _ a]) simp
qed

section \<open>The claims about decoding and validation\<close>

lemma decode_face_code_cases:
  "decode_face_code s =
     (case py_int16 (strip_0x s) of
        None \<Rightarrow> Inl (ValueError (strip_0x s))
      | Some n \<Rightarrow> Inr (decode_face_int n))"
  by (simp add: decode_face_code_def Let_def)

lemma hex_digits_literal: "hex_digits t \<Longrightarrow> int_literal16 t (unsigned_hex t)"
  unfolding py_int16_iff [symmetric] hex_digits_def by (simp add: py_int16_hex)

lemma parse_minus_1: "py_int16 ''-1'' = Some (- 1)"
  by (simp add: py_int16_def skip_sign_def skip_prefix_def is_space_def digit_value_def
      digits_value_def)

lemma decode_int_minus_1:
  "decode_face_int (- 1) =
     \<lparr> morphs = [7, 7, 7, 7, 7, 7, 7, 7], hair_index = 63, beard_index = 63, age = 63,
       skin_tone = 0 \<rparr>"
  by (simp add: decode_face_int_def MORPH_BITS_def dict_get_def skin_map_def upt_rec)

text \<open>
  Claim C7 (decode input handling), as stated, fails: \<open>-1\<close> is not a sequence of
  hexadecimal digits, and decoding it succeeds, from the negative integer -1.
\<close>

theorem decode_accepts_signed_text:
  "decode_face_code ''-1'' =
     Inr \<lparr> morphs = [7, 7, 7, 7, 7, 7, 7, 7], hair_index = 63, beard_index = 63, age = 63,
           skin_tone = 0 \<rparr> \<and>
   \<not> hex_digits (strip_0x ''-1'')"
proof -
  have s: "strip_0x ''-1'' = ''-1''"
    by (simp add: strip_0x_def startswith_def)
  have "\<not> is_hex_digit CHR ''-''"
    by (simp add: is_hex_digit_def digit_value_def)
  then have "\<not> hex_digits ''-1''"
    by (simp add: hex_digits_def)
  then show ?thesis
    by (simp add: decode_face_code_cases s parse_minus_1 decode_int_minus_1)
qed

text \<open>
  Claim C7, amended. A leading \<open>0x\<close> is stripped when present and its absence is
  tolerated. On ASCII text, decoding succeeds exactly on the base-16 integer literals
  (white space, sign, a second prefix and single underscores allowed), from the signed
  integer the literal denotes, and fails otherwise, with a \<open>ValueError\<close>. Every
  non-empty sequence of hexadecimal digits is such a literal and is read as its
  unsigned value.
\<close>

theorem decode_input_handling:
  assumes "list_all is_ascii hex_code"
  shows "(\<forall>t. strip_0x (''0x'' @ t) = t) \<and>
         (\<not> startswith hex_code ''0x'' \<longrightarrow> strip_0x hex_code = hex_code) \<and>
         (\<forall>n. int_literal16 (strip_0x hex_code) n \<longrightarrow>
              decode_face_code hex_code = Inr (decode_face_int n)) \<and>
         ((\<exists>e. decode_face_code hex_code = Inl e) \<longleftrightarrow> \<not> (\<exists>n. int_literal16 (strip_0x hex_code) n)) \<and>
         (\<forall>e. decode_face_code hex_code = Inl e \<longrightarrow> e = ValueError (strip_0x hex_code)) \<and>
         (hex_digits (strip_0x hex_code) \<longrightarrow>
            decode_face_code hex_code = Inr (decode_face_int (unsigned_hex (strip_0x hex_code))))"
proof (intro conjI allI impI)
  fix t show "strip_0x (''0x'' @ t) = t" by (rule strip_0x_prefixed)
next
  assume "\<not> startswith hex_code ''0x''"
  then show "strip_0x hex_code = hex_code" by (simp add: strip_0x_def)
next
  fix n assume "int_literal16 (strip_0x hex_code) n"
  then show "decode_face_code hex_code = Inr (decode_face_int n)"
    by (simp add: decode_face_code_cases py_int16_iff [symmetric])
next
  show "(\<exists>e. decode_face_code hex_code = Inl e) \<longleftrightarrow> \<not> (\<exists>n. int_literal16 (strip_0x hex_code) n)"
    by (cases "py_int16 (strip_0x hex_code)")
      (simp_all add: decode_face_code_cases py_int16_iff [symmetric])
next
  fix e assume "decode_face_code hex_code = Inl e"
  then show "e = ValueError (strip_0x hex_code)"
    by (cases "py_int16 (strip_0x hex_code)") (simp_all add: decode_face_code_cases)
next
  assume "hex_digits (strip_0x hex_code)"
  then show "decode_face_code hex_code = Inr (decode_face_int (unsigned_hex (strip_0x hex_code)))"
    by (simp add: decode_face_code_cases hex_digits_def py_int16_hex)
qed

lemma parse_not_a_code: "py_int16 ''not-a-code'' = None"
  by (simp add: py_int16_def skip_sign_def skip_prefix_def is_space_def digit_value_def)

lemma parse_signed_0x: "py_int16 '' -0X_1f '' = Some (- 31)"
  by (simp add: py_int16_def skip_sign_def skip_prefix_def is_space_def digit_value_def
      digits_value_def)

theorem decode_input_handling_witness:
  "list_all is_ascii ''0x -0X_1f '' \<and> int_literal16 (strip_0x ''0x -0X_1f '') (- 31) \<and>
   decode_face_code ''0x -0X_1f '' = Inr (decode_face_int (- 31)) \<and>
   list_all is_ascii ''not-a-code'' \<and> 
   decode_face_code ''not-a-code'' = Inl (ValueError ''not-a-code'')"
proof -
  have a1: "list_all is_ascii ''0x -0X_1f ''" and a2: "list_all is_ascii ''not-a-code''"
    by (simp_all add: is_ascii_def)
  have s1: "strip_0x ''0x -0X_1f '' = '' -0X_1f ''" and s2: "strip_0x ''not-a-code'' = ''not-a-code''"
    by (simp_all add: strip_0x_def startswith_def)
  have l1: "int_literal16 (strip_0x ''0x -0X_1f '') (- 31)"
    unfolding s1 py_int16_iff [symmetric] by (rule parse_signed_0x)
  have l2: "\<not> (\<exists>n. int_literal16 (strip_0x ''not-a-code'') n)"
    unfolding s2 py_int16_iff [symmetric] by (simp add: parse_not_a_code)
  from decode_input_handling [OF a1] l1
  have d1: "decode_face_code ''0x -0X_1f '' = Inr (decode_face_int (- 31))"
    by blast
  from decode_input_handling [OF a2] l2
  have "\<exists>e. decode_face_code ''not-a-code'' = Inl e" 
    and "\<forall>e. decode_face_code ''not-a-code'' = Inl e \<longrightarrow> e = ValueError (strip_0x ''not-a-code'')"
    by blast+
  then have d2: "decode_face_code ''not-a-code'' = Inl (ValueError ''not-a-code'')"
    unfolding s2 by blast
  from a1 a2 l1 d1 d2 show ?thesis by blast
qed

lemma decode_face_int_valid: "valid_params (decode_face_int n)"
proof -
  have m: "0 \<le> x AND 7 \<and> x AND 7 \<le> 7" and h: "0 \<le> x AND 63 \<and> x AND 63 \<le> 63" for x :: int
    by (simp_all add: AND_upper2')
  have sk: "0 \<le> dict_get skin_map k 0 \<and> dict_get skin_map k 0 \<le> 4" for k
    by (simp add: dict_get_def skin_map_def)
  show ?thesis
    unfolding valid_params_iff using m h sk
    by (simp add: decode_face_int_def)
qed

lemma FaceParameters_init_decoded: "FaceParameters_init (decode_face_int n) = Inr (decode_face_int n)"
  using decode_face_int_valid [of n] by (simp add: valid_params_def)

text \<open>What was decoded always passes validation, so \<open>valid\<close> is decided by the parser alone.\<close>

lemma validate_valid_iff_parses:
  "validate_face_code str_exc s =
     Inr (JObject [(''valid'', JBool (py_int16 (strip_0x s) \<noteq> None)), (''face_code'', JString s),
                   (''message'', JString (if py_int16 (strip_0x s) = None
                                          then str_exc (ValueError (strip_0x s))
                                          else ''Face code is valid''))])"
  by (cases "py_int16 (strip_0x s)")
    (simp_all add: validate_face_code_def decode_face_code_cases FaceParameters_init_decoded)

text \<open>
  Claim C6 (the validate operation never produces an error response). For every string
  the operation returns a body with the three items \<open>valid\<close>, \<open>face_code\<close> (the input,
  echoed) and \<open>message\<close>. \<open>valid\<close> is true exactly when decoding and the construction
  of \<open>FaceParameters\<close> both succeed; a failure of either gives \<open>valid\<close> false and the
  text of that failure as the message.
\<close>

theorem validate_never_errors:
  "\<exists>v m. validate_face_code str_exc face_code' =
            Inr (JObject [(''valid'', JBool v), (''face_code'', JString face_code'),
                          (''message'', JString m)]) \<and>
         (v \<longleftrightarrow> (\<exists>d. decode_face_code face_code' = Inr d \<and> FaceParameters_init d = Inr d)) \<and>
         (v \<longrightarrow> m = ''Face code is valid'') \<and>
         (\<forall>e. decode_face_code face_code' = Inl e \<longrightarrow> \<not> v \<and> m = str_exc e) \<and>
         (\<forall>d e. decode_face_code face_code' = Inr d \<and> FaceParameters_init d = Inl e \<longrightarrow>
                 \<not> v \<and> m = str_exc e)"
proof (cases "decode_face_code face_code'")
  case (Inl e)
  then show ?thesis
    by (intro exI [of _ False] exI [of _ "str_exc e"]) (simp add: validate_face_code_def)
next
  case (Inr d)
  show ?thesis
  proof (cases "FaceParameters_init d")
    case (Inl e)
    with Inr show ?thesis
      by (intro exI [of _ False] exI [of _ "str_exc e"]) (simp add: validate_face_code_def)
  next
    case r: (Inr d')
    then have "d' = d" by (auto simp: FaceParameters_init_def split: if_splits)
    with Inr r show ?thesis
      by (intro exI [of _ True] exI [of _ "''Face code is valid''"])
        (simp add: validate_face_code_def)
  qed
qed

theorem validate_never_errors_witness:
  "validate_face_code (\<lambda>e. case e of ValueError lit \<Rightarrow> ''invalid literal: '' @ lit | _ \<Rightarrow> [])
     ''not-a-code'' =
     Inr (JObject [(''valid'', JBool False), (''face_code'', JString ''not-a-code''),
                   (''message'', JString ''invalid literal: not-a-code'')])"
proof -
  let ?str = "\<lambda>e. case e of ValueError lit \<Rightarrow> ''invalid literal: '' @ lit | _ \<Rightarrow> []"
  have d: "decode_face_code ''not-a-code'' = Inl (ValueError ''not-a-code'')"
    by (simp add: decode_face_code_cases strip_0x_def startswith_def parse_not_a_code)
  from validate_never_errors [of ?str "''not-a-code''"] obtain v m where
    r: "validate_face_code ?str ''not-a-code'' =
          Inr (JObject [(''valid'', JBool v), (''face_code'', JString ''not-a-code''),
                        (''message'', JString m)])"
    and e: "\<forall>e. decode_face_code ''not-a-code'' = Inl e \<longrightarrow> \<not> v \<and> m = ?str e"
    by blast
  from e d have "\<not> v" "m = ''invalid literal: not-a-code''" by simp_all
  with r show ?thesis by simp
qed

section \<open>The claims about the profile parser\<close>

lemma parse_characters_iff:
  "parse_characters char_list acc = Inr characters \<longleftrightarrow>
     list_all (\<lambda>cd. 0 \<le> char_data.sex cd \<and> char_data.sex cd \<le> 1) char_list \<and>
     characters = acc @ map to_character char_list"
proof (induction char_list arbitrary: acc)
  case Nil
  then show ?case by auto
next
  case (Cons cd char_list)
  show ?case
    by (auto simp: Cons.IH Character_init_def extract_face_code_def to_character_def)
qed

text \<open>
  Claim C8 (face-code extraction stub). Parsing succeeds exactly when the enumeration
  succeeds and every raw record passes the check on \<open>sex\<close>; the characters returned
  are then the raw records in order, with name, sex and skin copied and the face code
  \<open>0x0000000000000000\<close>, whatever the appearance bytes are.
\<close>

theorem parse_profile_face_code_sentinel:
  "parse_profile list_characters profile_path = Inr characters \<longleftrightarrow>
     (\<exists>char_list. list_characters profile_path = Inr char_list \<and>
        list_all (\<lambda>cd. 0 \<le> char_data.sex cd \<and> char_data.sex cd \<le> 1) char_list \<and>
        characters = map to_character char_list)"
  by (cases "list_characters profile_path") (simp_all add: parse_profile_def parse_characters_iff)

theorem parse_profile_face_code_sentinel_witness:
  "parse_profile (\<lambda>p. Inr [\<lparr> char_data.name = ''Ann'', char_data.sex = 1, char_data.skin = 3,
                               appearance = [1, 2, 3] \<rparr>]) ''profiles.dat'' =
     Inr [\<lparr> name = ''Ann'', face_code = ''0x0000000000000000'', sex = 1, skin = 3 \<rparr>]"
  unfolding parse_profile_face_code_sentinel by (simp add: to_character_def)

declare dec_of_nat.simps [simp del]

lemma str_int_400: "str_int 400 = ''400''"
  by (simp add: str_int_def dec_of_nat.simps dec_char_def)

lemma update_character_face_unchanged:
  "update_character_face fs profile_path character_index code = (fs, False)"
  by (simp add: update_character_face_def)

lemma update_endpoint_existing_upload:
  "fs (joinpath UPLOADS_DIR (upload_id @ ''.dat'')) \<noteq> None \<Longrightarrow>
     update_character_face_endpoint str_exc joinpath UPLOADS_DIR fs upload_id character_index code =
       (fs, Inl (HTTPException 400 (str_exc (HTTPException 400 ''Failed to update face''))))"
  by (auto simp: update_character_face_def update_character_face_endpoint_def Let_def)

text \<open>
  Claim C9 (update-face stub). The update operation returns \<open>False\<close> and the file
  system as it was, and the endpoint answers an existing upload with status 400 and
  leaves the file system as it was. The detail of that answer is not the message
  \<open>Failed to update face\<close>: the exception raised with that detail is caught by the
  endpoint's own \<open>except Exception\<close> and raised again with its text as the detail,
  \<open>400: Failed to update face\<close>.
\<close>

theorem update_face_detail_rewrapped:
  "update_character_face_endpoint (str_exception str_other) (\<lambda>dir file. dir @ ''/'' @ file)
     ''uploads'' [''uploads/abc.dat'' \<mapsto> [1, 2, 3]] ''abc'' 0 ''0x0000000000000001'' =
     ([''uploads/abc.dat'' \<mapsto> [1, 2, 3]], Inl (HTTPException 400 ''400: Failed to update face'')) \<and>
   ''400: Failed to update face'' \<noteq> ''Failed to update face''"
proof -
  let ?join = "\<lambda>dir file. dir @ ''/'' @ file"
  let ?fs = "[''uploads/abc.dat'' \<mapsto> [1, 2, 3 :: nat]]"
  have "?fs (?join ''uploads'' (''abc'' @ ''.dat'')) \<noteq> None" by simp
  from update_endpoint_existing_upload [of ?fs ?join "''uploads''" "''abc''", OF this]
  show ?thesis by (simp add: str_exception_def str_int_400)
qed


section \<open>The claim about the real-time channel\<close>

text \<open>The construction from keyword arguments fails with a validation error only.\<close>

lemma FaceParameters_kwargs_error:
  "FaceParameters_kwargs coerce_int kw = Inl e \<Longrightarrow> \<exists>fields. e = ValidationError fields"
  by (auto simp: FaceParameters_kwargs_def Let_def split: if_splits)

text \<open>
  Claim C10 (face update without parameters). For a text that parses to an object with
  \<open>type\<close> equal to \<open>face_update\<close>: when the object has no \<open>parameters\<close> key, the
  lookup raises \<open>KeyError\<close>, which is not a \<open>ValueError\<close>; the handler sends no frame
  for it and ends with that exception, the texts after it unread. When the parameters
  are an object that fails validation, the handler sends one error frame and goes on
  with the next text.
\<close>

theorem face_update_without_parameters:
  assumes "json_loads data = Inr (JObject items)"
    and "map_of items ''type'' = Some (JString ''face_update'')"
  shows "(map_of items ''parameters'' = None \<longrightarrow>
            \<not> is_ValueError (KeyError ''parameters'') \<and>
            handle_message str_exc coerce_int json_loads data = Inl (KeyError ''parameters'') \<and>
            websocket_face_updates str_exc coerce_int json_loads (data # incoming) sent =
              (sent, Some (KeyError ''parameters''))) \<and>
         (\<forall>kw fields.
            map_of items ''parameters'' = Some (JObject kw) \<and>
            FaceParameters_kwargs coerce_int kw = Inl (ValidationError fields) \<longrightarrow>
            websocket_face_updates str_exc coerce_int json_loads (data # incoming) sent =
              websocket_face_updates str_exc coerce_int json_loads incoming
                (sent @ [JObject [(''type'', JString ''error''),
                                  (''message'', JString (str_exc (ValidationError fields)))]]))"
proof (intro conjI allI impI)
  show "\<not> is_ValueError (KeyError ''parameters'')" by simp
next
  assume "map_of items ''parameters'' = None"
  then show h: "handle_message str_exc coerce_int json_loads data = Inl (KeyError ''parameters'')"
    using assms
    by (simp add: handle_message_def get_method_def face_update_def subscript_def)
  show "websocket_face_updates str_exc coerce_int json_loads (data # incoming) sent =
          (sent, Some (KeyError ''parameters''))"
    by (simp add: h)
next
  fix kw fields
  assume "map_of items ''parameters'' = Some (JObject kw) \<and>
          FaceParameters_kwargs coerce_int kw = Inl (ValidationError fields)"
  then have "handle_message str_exc coerce_int json_loads data =
      Inr [JObject [(''type'', JString ''error''),
                    (''message'', JString (str_exc (ValidationError fields)))]]"
    using assms
    by (simp add: handle_message_def get_method_def face_update_def subscript_def)
  then show "websocket_face_updates str_exc coerce_int json_loads (data # incoming) sent =
      websocket_face_updates str_exc coerce_int json_loads incoming
        (sent @ [JObject [(''type'', JString ''error''),
                          (''message'', JString (str_exc (ValidationError fields)))]])"
    by simp
qed

theorem face_update_without_parameters_witness:
  "websocket_face_updates (\<lambda>e. ''failed'') strict_int sample_loads [''B'', ''A'', ''B''] [] =
     ([JObject [(''type'', JString ''error''), (''message'', JString ''failed'')]],
      Some (KeyError ''parameters''))"
proof -
  let ?str = "\<lambda>e::exn. ''failed''"
  let ?kw = "[(''morphs'', JArray (map JInt [0, 1, 2, 3, 4, 5, 6, 7])),
              (''hair_index'', JInt 10), (''beard_index'', JInt 20),
              (''age'', JInt 30), (''skin_tone'', JInt 9)]"
  let ?A = "[(''type'', JString ''face_update'')]"
  let ?B = "[(''type'', JString ''face_update''), (''parameters'', JObject ?kw)]"
  have lA: "sample_loads ''A'' = Inr (JObject ?A)" and lB: "sample_loads ''B'' = Inr (JObject ?B)"
    by (simp_all add: sample_loads_def)
  have tA: "map_of ?A ''type'' = Some (JString ''face_update'')"
    and tB: "map_of ?B ''type'' = Some (JString ''face_update'')"
    by simp_all
  have pA: "map_of ?A ''parameters'' = None" by simp
  have pB: "map_of ?B ''parameters'' = Some (JObject ?kw)" by simp
  have kB: "FaceParameters_kwargs strict_int ?kw = Inl (ValidationError [''skin_tone''])"
    by (simp add: FaceParameters_kwargs_def kwarg_def coerce_int_list_def strict_int_def
        field_errors_def validate_morph_values_def validate_skin_tone_def)
  have 1: "websocket_face_updates ?str strict_int sample_loads [''B'', ''A'', ''B''] [] =
        websocket_face_updates ?str strict_int sample_loads [''A'', ''B'']
          ([] @ [JObject [(''type'', JString ''error''), (''message'', JString ''failed'')]])"
    using face_update_without_parameters [where json_loads = sample_loads and data = "''B''"
        and items = ?B and str_exc = ?str and coerce_int = strict_int
        and incoming = "[''A'', ''B'']" and sent = "[]", OF lB tB] pB kB
    by blast
  have 2: "websocket_face_updates ?str strict_int sample_loads [''A'', ''B'']
          [JObject [(''type'', JString ''error''), (''message'', JString ''failed'')]] =
        ([JObject [(''type'', JString ''error''), (''message'', JString ''failed'')]],
         Some (KeyError ''parameters''))"
    using face_update_without_parameters [where json_loads = sample_loads and data = "''A''"
        and items = ?A and str_exc = ?str and coerce_int = strict_int
        and incoming = "[''B'']", OF lA tA] pA
    by blast
  from 1 2 show ?thesis by simp
qed

end
